theory Spec2Isabelle
  imports Complex_Main "HOL-Library.Word"
begin

section \<open>Data model\<close>

text \<open>
  The program is \<^verbatim>\<open>app/watermark_removal.py\<close> (the pipeline) and \<^verbatim>\<open>app/main.py\<close>
  (the upload endpoint). Python floats are modelled as \<^typ>\<open>real\<close>: the code only
  compares and copies them, which is exact on finite floats; NaN is outside the model.
  Pixels are \<^verbatim>\<open>uint8\<close>, so \<^typ>\<open>8 word\<close>; an image is the list of its rows.
\<close>

type_synonym gray = "8 word list list"

type_synonym path = "string list"

type_synonym bytes = "8 word list"

text \<open>\<^verbatim>\<open>WatermarkRemovalError(message)\<close>; the other two constructors stand for exceptions
  that the libraries raise through the code unchanged (\<^verbatim>\<open>cv2.error\<close>, \<^verbatim>\<open>OSError\<close>).\<close>

datatype error = WatermarkRemovalError string | Cv2Error | OSError

record WatermarkDetection =
  top_left :: "int \<times> int"
  size_d :: "int \<times> int"
  confidence :: real

definition bbox :: "WatermarkDetection \<Rightarrow> int \<times> int \<times> int \<times> int" where
  "bbox d = (case top_left d of (x, y) \<Rightarrow> case size_d d of (w, h) \<Rightarrow> (x, y, w, h))"

text \<open>\<^verbatim>\<open>array.shape[:2]\<close> of a two-dimensional array: (rows, columns).\<close>

definition shape :: "'a list list \<Rightarrow> nat \<times> nat" where
  "shape img = (length img, (case img of [] \<Rightarrow> 0 | r # _ \<Rightarrow> length r))"

subsection \<open>The OpenCV calls\<close>

text \<open>
  A video source as \<^verbatim>\<open>cv2.VideoCapture\<close> presents it: the three properties the code
  reads and the frames that successive \<^verbatim>\<open>read()\<close> calls deliver before the first failure.
\<close>

record 'f capture =
  CAP_PROP_FPS :: real
  CAP_PROP_FRAME_WIDTH :: nat
  CAP_PROP_FRAME_HEIGHT :: nat
  cap_frames :: "'f list"

text \<open>
  The library calls whose algorithm is not part of the repository are parameters of the
  model, collected in one record. \<open>'f\<close> is the type of a colour frame.
  \<^item> \<open>imread\<close>: decoding a file as a grayscale image, \<open>None\<close> when it cannot be decoded;
  \<^item> \<open>VideoCapture\<close>: opening a file as a video, \<open>None\<close> when \<^verbatim>\<open>isOpened()\<close> is false;
  \<^item> \<open>matchTemplate\<close>: the score matrix of \<^verbatim>\<open>TM_CCOEFF_NORMED\<close>, one entry per alignment
    of the template in the frame, \<open>None\<close> when the call raises (template larger than frame);
  \<^item> \<open>VideoWriter_isOpened\<close>: whether a writer constructed with this path, frame rate
    and frame size is open;
  \<^item> \<open>VideoWriter_release\<close>: the file a released writer leaves behind after the given
    frames were written to it, \<open>None\<close> when it leaves no file.
\<close>

record 'f cv2 =
  imread :: "bytes \<Rightarrow> gray option"
  VideoCapture :: "bytes \<Rightarrow> 'f capture option"
  cvtColor :: "'f \<Rightarrow> gray"
  matchTemplate :: "gray \<Rightarrow> gray \<Rightarrow> real list list option"
  inpaint :: "'f \<Rightarrow> gray \<Rightarrow> 'f"
  VideoWriter_isOpened :: "path \<Rightarrow> real \<Rightarrow> nat \<times> nat \<Rightarrow> bool"
  VideoWriter_release :: "real \<Rightarrow> nat \<times> nat \<Rightarrow> 'f list \<Rightarrow> bytes option"

section \<open>Detector\<close>

text \<open>
  \<^verbatim>\<open>cv2.minMaxLoc(result)\<close>: the maximum of the matrix and where it stands, as
  \<open>(x, y) = (column, row)\<close>. The matrix is scanned row by row and a later entry replaces
  the best one only when it is strictly greater. A matrix without entries has no maximum.
\<close>

definition entries :: "real list list \<Rightarrow> (real \<times> int \<times> int) list" where
  "entries result =
     [(result ! y ! x, int x, int y). y \<leftarrow> [0..<length result], x \<leftarrow> [0..<length (result ! y)]]"

definition better :: "real \<times> int \<times> int \<Rightarrow> real \<times> int \<times> int \<Rightarrow> real \<times> int \<times> int" where
  "better e best = (if fst e > fst best then e else best)"

definition minMaxLoc :: "real list list \<Rightarrow> (real \<times> int \<times> int) option" where
  "minMaxLoc result =
     (case entries result of [] \<Rightarrow> None | e # es \<Rightarrow> Some (fold better es e))"

text \<open>\<^verbatim>\<open>_detect_watermark(gray_frame, template, threshold)\<close>.\<close>

definition detect_watermark ::
  "'f cv2 \<Rightarrow> gray \<Rightarrow> gray \<Rightarrow> real \<Rightarrow> error + WatermarkDetection option" where
  "detect_watermark lib gray_frame template threshold =
     (case matchTemplate lib gray_frame template of
        None \<Rightarrow> Inl Cv2Error
      | Some result \<Rightarrow>
          (case minMaxLoc result of
             None \<Rightarrow> Inl Cv2Error
           | Some (max_val, max_loc) \<Rightarrow>
               if max_val < threshold then Inr None
               else (case shape template of (h, w) \<Rightarrow>
                 Inr (Some \<lparr>top_left = (fst max_loc, snd max_loc),
                            size_d = (int w, int h),
                            confidence = max_val\<rparr>))))"

section \<open>Tracker\<close>

text \<open>
  The \<^verbatim>\<open>else\<close> branch of the frame loop (lines 115 to 117): the held detection and the
  candidate of this frame give the detection to use.
\<close>

definition tracker_update :: "WatermarkDetection \<Rightarrow> WatermarkDetection option \<Rightarrow> WatermarkDetection" where
  "tracker_update detection updated =
     (case updated of
        None \<Rightarrow> detection
      | Some u \<Rightarrow> if confidence u \<ge> confidence detection then u else detection)"

text \<open>The held detection after each of a sequence of candidates.\<close>

fun tracker_states :: "WatermarkDetection \<Rightarrow> WatermarkDetection option list \<Rightarrow> WatermarkDetection list" where
  "tracker_states detection [] = []"
| "tracker_states detection (c # cs) =
     tracker_update detection c # tracker_states (tracker_update detection c) cs"

section \<open>Mask builder\<close>

text \<open>\<^verbatim>\<open>np.zeros(frame_shape, dtype=np.uint8)\<close>.\<close>

definition zeros :: "nat \<times> nat \<Rightarrow> gray" where
  "zeros frame_shape = replicate (fst frame_shape) (replicate (snd frame_shape) 0)"

text \<open>
  A bound of a Python slice on an axis of length \<open>n\<close>: a negative bound counts from the
  end, and the result is clipped to \<open>0..n\<close>.
\<close>

definition slice_bound :: "int \<Rightarrow> nat \<Rightarrow> nat" where
  "slice_bound i n = (if i < 0 then nat (max 0 (i + int n)) else min (nat i) n)"

text \<open>\<^verbatim>\<open>mask[y0:y1, x0:x1] = v\<close>.\<close>

definition assign_block :: "gray \<Rightarrow> int \<Rightarrow> int \<Rightarrow> int \<Rightarrow> int \<Rightarrow> 8 word \<Rightarrow> gray" where
  "assign_block img y0 y1 x0 x1 v =
     [[if slice_bound y0 (length img) \<le> r \<and> r < slice_bound y1 (length img) \<and>
          slice_bound x0 (length (img ! r)) \<le> c \<and> c < slice_bound x1 (length (img ! r))
       then v else img ! r ! c.
       c \<leftarrow> [0..<length (img ! r)]].
      r \<leftarrow> [0..<length img]]"

text \<open>
  Modelled from the spec: \<^verbatim>\<open>cv2.dilate(mask, np.ones((5, 5)), iterations=1)\<close> is a library
  call; the spec describes it as one dilation pass over a 5 by 5 neighbourhood. Each
  pixel becomes the maximum of the pixels of the image at most two rows and two columns
  away from it; positions outside the image contribute nothing.
\<close>

definition window5 :: "gray \<Rightarrow> nat \<Rightarrow> nat \<Rightarrow> 8 word list" where
  "window5 img r c =
     [img ! nat i ! nat j.
        i \<leftarrow> [int r - 2 .. int r + 2], 0 \<le> i, nat i < length img,
        j \<leftarrow> [int c - 2 .. int c + 2], 0 \<le> j, nat j < length (img ! nat i)]"

definition dilate :: "gray \<Rightarrow> gray" where
  "dilate img =
     [[fold max (window5 img r c) 0. c \<leftarrow> [0..<length (img ! r)]]. r \<leftarrow> [0..<length img]]"

text \<open>\<^verbatim>\<open>_build_inpaint_mask(frame_shape, detection)\<close>.\<close>

definition build_inpaint_mask :: "nat \<times> nat \<Rightarrow> WatermarkDetection \<Rightarrow> gray" where
  "build_inpaint_mask frame_shape detection =
     (case bbox detection of (x, y, w, h) \<Rightarrow>
        dilate (assign_block (zeros frame_shape) y (y + h) x (x + w) 255))"

section \<open>Paths and the file system\<close>

text \<open>
  A path is the list of its components. \<open>name_p\<close>, \<open>suffix_p\<close> and \<open>stem\<close> are
  \<^verbatim>\<open>PurePath.name\<close>, \<^verbatim>\<open>.suffix\<close> and \<^verbatim>\<open>.stem\<close> (as in CPython up to 3.13): the
  suffix starts at the last dot of the final component, unless that dot is its first or
  its last character.
\<close>

fun rfind :: "char \<Rightarrow> string \<Rightarrow> nat option" where
  "rfind c [] = None"
| "rfind c (x # xs) =
     (case rfind c xs of
        Some i \<Rightarrow> Some (Suc i)
      | None \<Rightarrow> if x = c then Some 0 else None)"

definition name_p :: "path \<Rightarrow> string" where
  "name_p p = (case p of [] \<Rightarrow> [] | _ # _ \<Rightarrow> last p)"

definition suffix_p :: "path \<Rightarrow> string" where
  "suffix_p p =
     (case rfind (CHR ''.'') (name_p p) of
        Some i \<Rightarrow> if 0 < i \<and> Suc i < length (name_p p) then drop i (name_p p) else []
      | None \<Rightarrow> [])"

definition stem :: "path \<Rightarrow> string" where
  "stem p =
     (case rfind (CHR ''.'') (name_p p) of
        Some i \<Rightarrow> if 0 < i \<and> Suc i < length (name_p p) then take i (name_p p) else name_p p
      | None \<Rightarrow> name_p p)"

text \<open>\<^verbatim>\<open>Path(s)\<close> of a string: the components between slashes, without the empty ones
  and the single dots.\<close>

fun splitc :: "char \<Rightarrow> string \<Rightarrow> string list" where
  "splitc c [] = [[]]"
| "splitc c (x # xs) =
     (if x = c then [] # splitc c xs
      else (case splitc c xs of [] \<Rightarrow> [[x]] | p # ps \<Rightarrow> (x # p) # ps))"

definition Path :: "string \<Rightarrow> path" where
  "Path s = filter (\<lambda>p. p \<noteq> [] \<and> p \<noteq> ''.'') (splitc (CHR ''/'') s)"

datatype node = Dir | File bytes

type_synonym fs = "path \<Rightarrow> node option"

fun is_file :: "node option \<Rightarrow> bool" where
  "is_file (Some (File b)) = True"
| "is_file _ = False"

text \<open>\<^verbatim>\<open>stat().st_size\<close>; the size a directory reports is not used by the program.\<close>

fun st_size :: "node \<Rightarrow> nat" where
  "st_size (File b) = length b"
| "st_size Dir = 4096"

definition ancestors :: "path \<Rightarrow> path list" where
  "ancestors p = map (\<lambda>n. take n p) [1..<Suc (length p)]"

text \<open>\<^verbatim>\<open>mkdir(parents=True, exist_ok=True)\<close>: fails when the path or one of its parents is
  a regular file, and otherwise leaves all of them directories.\<close>

definition mkdir_parents :: "fs \<Rightarrow> path \<Rightarrow> error + fs" where
  "mkdir_parents disk p =
     (if list_ex (\<lambda>q. is_file (disk q)) (ancestors p) then Inl OSError
      else Inr (\<lambda>q. if q \<in> set (ancestors p) then Some Dir else disk q))"

text \<open>Writing or replacing what stands at a path, and \<^verbatim>\<open>unlink(missing_ok=True)\<close>.\<close>

definition store :: "fs \<Rightarrow> path \<Rightarrow> node option \<Rightarrow> fs" where
  "store d p n = d(p := n)"

definition unlink :: "fs \<Rightarrow> path \<Rightarrow> fs" where
  "unlink d p = d(p := None)"

section \<open>Pipeline driver\<close>

definition msg_template_missing :: string where
  "msg_template_missing =
     ''Watermark template not found. Please provide 'sora2_template.pgm' in the assets directory.''"

definition msg_undetected :: string where
  "msg_undetected =
     ''Unable to detect the Sora 2 watermark. Try adjusting the template or threshold.''"

definition DEFAULT_TEMPLATE :: "path \<Rightarrow> path" where
  "DEFAULT_TEMPLATE app_root = app_root @ [''assets'', ''sora2_template.pgm'']"

text \<open>\<^verbatim>\<open>_load_template(template_path)\<close>.\<close>

definition load_template :: "'f cv2 \<Rightarrow> fs \<Rightarrow> path \<Rightarrow> error + gray" where
  "load_template lib disk template_path =
     (case disk template_path of
        None \<Rightarrow> Inl (WatermarkRemovalError msg_template_missing)
      | Some Dir \<Rightarrow> Inl (WatermarkRemovalError ''Unable to read watermark template image'')
      | Some (File b) \<Rightarrow>
          (case imread lib b of
             None \<Rightarrow> Inl (WatermarkRemovalError ''Unable to read watermark template image'')
           | Some template \<Rightarrow> Inr template))"

text \<open>
  The \<^verbatim>\<open>while True\<close> loop of \<^verbatim>\<open>process_video\<close> over the frames that remain, with the
  held detection and the frames written so far. It ends when the source is exhausted
  (\<open>Exhausted\<close>, the \<^verbatim>\<open>break\<close>), when the first frame gives no detection
  (\<open>RaisedUndetected\<close>, lines 107 to 113) or when the library raises (\<open>RaisedCv2\<close>).
  Both branches of the source call the detector first, with the same arguments; here it
  is called once, before the branch on the held detection.
\<close>

datatype 'f loop_exit =
    Exhausted "WatermarkDetection option" "'f list"
  | RaisedUndetected "'f list"
  | RaisedCv2 "'f list"

fun frame_loop ::
  "'f cv2 \<Rightarrow> gray \<Rightarrow> real \<Rightarrow> WatermarkDetection option \<Rightarrow> 'f list \<Rightarrow> 'f list \<Rightarrow> 'f loop_exit" where
  "frame_loop lib template threshold detection [] written = Exhausted detection written"
| "frame_loop lib template threshold detection (frame # rest) written =
     (case detect_watermark lib (cvtColor lib frame) template threshold of
        Inl e \<Rightarrow> RaisedCv2 written
      | Inr found \<Rightarrow>
          (case detection of
             None \<Rightarrow>
               (case found of
                  None \<Rightarrow> RaisedUndetected written
                | Some d \<Rightarrow>
                    frame_loop lib template threshold (Some d) rest
                      (written @
                       [inpaint lib frame (build_inpaint_mask (shape (cvtColor lib frame)) d)]))
           | Some held \<Rightarrow>
               frame_loop lib template threshold (Some (tracker_update held found)) rest
                 (written @
                  [inpaint lib frame
                     (build_inpaint_mask (shape (cvtColor lib frame))
                        (tracker_update held found))])))"

text \<open>The writer as constructed on line 90, and the frames given to it.\<close>

record 'f writer =
  w_path :: path
  w_fps :: real
  w_frame_size :: "nat \<times> nat"
  w_frames :: "'f list"

text \<open>What a call of \<^verbatim>\<open>process_video\<close> leaves: the path returned or the exception
  raised, the file system, and the writer if one was constructed.\<close>

record 'f job =
  outcome :: "error + path"
  disk :: fs
  sink :: "'f writer option"

text \<open>
  \<^verbatim>\<open>process_video(input_path, output_dir, template_path, threshold)\<close>. \<open>app_root\<close> is
  the directory above the module, from which the default template path is built. An open
  writer starts its file empty; \<^verbatim>\<open>release()\<close> leaves what \<open>VideoWriter_release\<close> says.
  What the file holds while frames are being written is not modelled: when the library
  raises inside the loop, the file is left as the writer started it.
\<close>

definition process_video ::
  "'f cv2 \<Rightarrow> path \<Rightarrow> fs \<Rightarrow> path \<Rightarrow> path \<Rightarrow> path option \<Rightarrow> real \<Rightarrow> 'f job" where
  "process_video lib app_root disk0 input_path output_dir template_path threshold =
     (if disk0 input_path = None
      then \<lparr>outcome = Inl (WatermarkRemovalError ''Input video does not exist''),
            disk = disk0, sink = None\<rparr>
      else
     (case load_template lib disk0
             (case template_path of None \<Rightarrow> DEFAULT_TEMPLATE app_root | Some p \<Rightarrow> p) of
        Inl e \<Rightarrow> \<lparr>outcome = Inl e, disk = disk0, sink = None\<rparr>
      | Inr template \<Rightarrow>
     (case (case disk0 input_path of Some (File b) \<Rightarrow> VideoCapture lib b | _ \<Rightarrow> None) of
        None \<Rightarrow> \<lparr>outcome = Inl (WatermarkRemovalError ''Could not open input video''),
                  disk = disk0, sink = None\<rparr>
      | Some cap \<Rightarrow>
     (let fps = (if CAP_PROP_FPS cap = 0 then 30 else CAP_PROP_FPS cap);
          frame_size = (CAP_PROP_FRAME_WIDTH cap, CAP_PROP_FRAME_HEIGHT cap)
      in
     (case mkdir_parents disk0 output_dir of
        Inl e \<Rightarrow> \<lparr>outcome = Inl e, disk = disk0, sink = None\<rparr>
      | Inr disk1 \<Rightarrow>
     (let output_path = output_dir @ [stem input_path @ ''_clean.mp4''];
          wr = \<lparr>w_path = output_path, w_fps = fps, w_frame_size = frame_size, w_frames = []\<rparr>
      in
     (if \<not> VideoWriter_isOpened lib output_path fps frame_size
      then \<lparr>outcome = Inl (WatermarkRemovalError ''Could not initialise video writer''),
            disk = disk1, sink = Some wr\<rparr>
      else
     (let disk2 = store disk1 output_path (Some (File [])) in
     (case frame_loop lib template threshold None (cap_frames cap) [] of
        RaisedCv2 written \<Rightarrow>
          \<lparr>outcome = Inl Cv2Error, disk = disk2, sink = Some (wr\<lparr>w_frames := written\<rparr>)\<rparr>
      | RaisedUndetected written \<Rightarrow>
          \<lparr>outcome = Inl (WatermarkRemovalError msg_undetected),
           disk = unlink
                    (store disk2 output_path
                       (map_option File (VideoWriter_release lib fps frame_size written)))
                    output_path,
           sink = Some (wr\<lparr>w_frames := written\<rparr>)\<rparr>
      | Exhausted detection written \<Rightarrow>
          (let disk3 = store disk2 output_path
                         (map_option File (VideoWriter_release lib fps frame_size written))
           in
           (if disk3 output_path = None \<or>
               (case disk3 output_path of None \<Rightarrow> False | Some n \<Rightarrow> st_size n = 0)
            then \<lparr>outcome = Inl (WatermarkRemovalError ''Failed to generate cleaned video''),
                  disk = disk3, sink = Some (wr\<lparr>w_frames := written\<rparr>)\<rparr>
            else \<lparr>outcome = Inr output_path, disk = disk3,
                  sink = Some (wr\<lparr>w_frames := written\<rparr>)\<rparr>)))))))))))"

text \<open>
  The conditions under which a call of \<open>process_video\<close> reaches its frame loop, read off
  its first lines: the input is a file that opens as the video \<open>cap\<close>, the template
  loads as \<open>template\<close>, the output directory can be made (giving \<open>disk1\<close>), and the
  writer opens.
\<close>

definition opened ::
  "'f cv2 \<Rightarrow> path \<Rightarrow> fs \<Rightarrow> path \<Rightarrow> path \<Rightarrow> path option \<Rightarrow> gray \<Rightarrow> 'f capture \<Rightarrow> fs \<Rightarrow> bool" where
  "opened lib app_root disk0 input_path output_dir template_path template cap disk1 \<longleftrightarrow>
     (\<exists>b. disk0 input_path = Some (File b) \<and> VideoCapture lib b = Some cap) \<and>
     load_template lib disk0
       (case template_path of None \<Rightarrow> DEFAULT_TEMPLATE app_root | Some p \<Rightarrow> p) = Inr template \<and>
     mkdir_parents disk0 output_dir = Inr disk1 \<and>
     VideoWriter_isOpened lib (output_dir @ [stem input_path @ ''_clean.mp4''])
       (if CAP_PROP_FPS cap = 0 then 30 else CAP_PROP_FPS cap)
       (CAP_PROP_FRAME_WIDTH cap, CAP_PROP_FRAME_HEIGHT cap)"

section \<open>Upload endpoint\<close>

definition ALLOWED_SUFFIXES :: "string list" where
  "ALLOWED_SUFFIXES = [''.mp4'', ''.mov'', ''.mkv'', ''.avi'', ''.webm'']"

text \<open>What the endpoint answers: an \<^verbatim>\<open>HTTPException\<close> with status and detail, a
  \<^verbatim>\<open>FileResponse\<close> with path, media type and download name, or an exception that is
  not caught (\<open>Uncaught\<close>).\<close>

datatype response =
    HTTPException nat string
  | FileResponse path string string
  | Uncaught error

text \<open>
  \<^verbatim>\<open>process_upload(file)\<close>: \<open>filename\<close> and \<open>content\<close> are the upload, \<open>uuid4\<close> the
  random name, \<open>app_root\<close> is \<^verbatim>\<open>BASE_DIR\<close>. The file system returned is the one after
  the background task of a file response has run.

  A file name is Unicode text, held here as the bytes of its UTF-8 encoding; the slash
  and the dot are single bytes that occur nowhere else in the encoding, so \<open>Path\<close> and
  \<open>suffix_p\<close> cut the bytes where \<^verbatim>\<open>pathlib\<close> cuts the text. \<^verbatim>\<open>str.lower()\<close> is the
  built-in case mapping of Unicode text (it maps, for one, the Kelvin sign to \<open>k\<close>); it
  is not part of the repository and is the parameter \<open>str_lower\<close> of the model.
\<close>

definition process_upload ::
  "'f cv2 \<Rightarrow> (string \<Rightarrow> string) \<Rightarrow> path \<Rightarrow> string \<Rightarrow> fs \<Rightarrow> string option \<Rightarrow> bytes
     \<Rightarrow> response \<times> fs" where
  "process_upload lib str_lower app_root uuid4 disk0 filename content =
     (case filename of
        None \<Rightarrow> (HTTPException 400 ''No file uploaded'', disk0)
      | Some fname \<Rightarrow>
     (if fname = [] then (HTTPException 400 ''No file uploaded'', disk0)
      else
     (let suffix = str_lower (suffix_p (Path fname)) in
     (if suffix \<notin> set ALLOWED_SUFFIXES
      then (HTTPException 400 ''Unsupported file type'', disk0)
      else
     (let upload_path = app_root @ [''uploads'', uuid4 @ suffix];
          disk1 = store disk0 upload_path (Some (File content));
          j = process_video lib app_root disk1 upload_path (app_root @ [''outputs''])
                None (35 / 100)
      in
     (case outcome j of
        Inl (WatermarkRemovalError m) \<Rightarrow> (HTTPException 422 m, unlink (disk j) upload_path)
      | Inl e \<Rightarrow> (Uncaught e, disk j)
      | Inr output_path \<Rightarrow>
          (FileResponse output_path ''video/mp4'' (stem upload_path @ ''_clean.mp4''),
           unlink (unlink (disk j) upload_path) output_path)))))))"

section \<open>Vocabulary of the properties\<close>

text \<open>The fill region of a mask and the pixels of a bounding box that lie in a frame of
  the given shape, as sets of (row, column).\<close>

definition fill_region :: "gray \<Rightarrow> (nat \<times> nat) set" where
  "fill_region m = set [(r, c). r \<leftarrow> [0..<length m], c \<leftarrow> [0..<length (m ! r)], m ! r ! c = 255]"

definition bbox_pixels :: "nat \<times> nat \<Rightarrow> WatermarkDetection \<Rightarrow> (nat \<times> nat) set" where
  "bbox_pixels frame_shape d =
     (case bbox d of (x, y, w, h) \<Rightarrow>
        set [(r, c). r \<leftarrow> [0..<fst frame_shape], c \<leftarrow> [0..<snd frame_shape],
                     y \<le> int r, int r < y + h, x \<le> int c, int c < x + w])"

subsection \<open>A stand-in for the library on small inputs\<close>

text \<open>
  Concrete runs need concrete library behaviour. Frames and templates are one row of two
  pixels; on such images the normalised correlation coefficient is 1 when both rise or
  both fall, -1 when one rises and the other falls (0 here when one of them is flat). A
  video file is one byte for the reported frame rate followed by one byte per frame; the
  released writer leaves the pixels of the frames it was given.
\<close>

fun demo_matchTemplate :: "gray \<Rightarrow> gray \<Rightarrow> real list list option" where
  "demo_matchTemplate [[a, b]] [[c, d]] =
     Some [[if a = b \<or> c = d then 0 else if (a < b) = (c < d) then 1 else - 1]]"
| "demo_matchTemplate g t = None"

definition demo_cv2 :: "gray cv2" where
  "demo_cv2 =
     \<lparr>imread = (\<lambda>b. if length b = 2 then Some [b] else None),
      VideoCapture = (\<lambda>b. case b of [] \<Rightarrow> None
                        | r # ps \<Rightarrow> Some \<lparr>CAP_PROP_FPS = real (unat r),
                                           CAP_PROP_FRAME_WIDTH = 2,
                                           CAP_PROP_FRAME_HEIGHT = 1,
                                           cap_frames = map (\<lambda>p. [[p, 255 - p]]) ps\<rparr>),
      cvtColor = (\<lambda>f. f),
      matchTemplate = demo_matchTemplate,
      inpaint = (\<lambda>f m. f),
      VideoWriter_isOpened = (\<lambda>p fps sz. True),
      VideoWriter_release = (\<lambda>fps sz fr. Some (concat (concat fr)))\<rparr>"

text \<open>On text of ASCII characters only, \<^verbatim>\<open>str.lower()\<close> maps the letters \<open>A\<close> to \<open>Z\<close> to
  \<open>a\<close> to \<open>z\<close> and leaves the rest. The concrete runs use file names of that kind.\<close>

definition ascii_lower :: "string \<Rightarrow> string" where
  "ascii_lower s =
     map (\<lambda>c. if (65::nat) \<le> of_char c \<and> of_char c \<le> (90::nat)
               then char_of (of_char c + (32::nat)) else c) s"

definition demo_disk :: fs where
  "demo_disk =
     ((\<lambda>p. None)([''srv'', ''assets'', ''sora2_template.pgm''] \<mapsto> File [255, 0]))
       ([''in'', ''clip.mp4''] \<mapsto> File [0, 255, 0])"

section \<open>Properties of the detector\<close>

lemma fold_better_mem: "fold better es e \<in> set (e # es)"
  by (induction es arbitrary: e) (auto simp: better_def)

lemma fold_better_ge: "fst e \<le> fst (fold better es e)"
proof (induction es arbitrary: e)
  case Nil
  show ?case by simp
next
  case (Cons a es)
  have "fst e \<le> fst (better a e)" by (simp add: better_def)
  also have "\<dots> \<le> fst (fold better es (better a e))" by (rule Cons.IH)
  finally show ?case by simp
qed

lemma fold_better_upper: "x \<in> set (e # es) \<Longrightarrow> fst x \<le> fst (fold better es e)"
proof (induction es arbitrary: e)
  case Nil
  then show ?case by simp
next
  case (Cons a es)
  have step: "fst e \<le> fst (better a e)" "fst a \<le> fst (better a e)"
    by (simp_all add: better_def)
  from Cons.prems consider "x = e" | "x = a" | "x \<in> set es" by auto
  then show ?case
  proof cases
    case 1
    then show ?thesis using step(1) fold_better_ge [of "better a e" es] by simp
  next
    case 2
    then show ?thesis using step(2) fold_better_ge [of "better a e" es] by simp
  next
    case 3
    then show ?thesis using Cons.IH [of "better a e"] by simp
  qed
qed

lemma fold_better_Max: "fst (fold better es e) = Max (fst ` set (e # es))"
proof (rule sym, rule Max_eqI)
  show "finite (fst ` set (e # es))" by simp
  show "\<And>y. y \<in> fst ` set (e # es) \<Longrightarrow> y \<le> fst (fold better es e)"
    using fold_better_upper by blast
  show "fst (fold better es e) \<in> fst ` set (e # es)"
    using fold_better_mem by blast
qed

lemma set_entries:
  "set (entries result) =
     {(result ! i ! j, int j, int i) | i j. i < length result \<and> j < length (result ! i)}"
  unfolding entries_def by (auto simp: image_iff)

lemma in_entries:
  "(v, x, y) \<in> set (entries result) \<longleftrightarrow>
     (\<exists>i j. i < length result \<and> j < length (result ! i) \<and> v = result ! i ! j \<and>
            x = int j \<and> y = int i)"
  unfolding set_entries by blast

lemma fst_entries: "fst ` set (entries result) = set (concat result)"
proof (intro set_eqI iffI)
  fix v assume "v \<in> fst ` set (entries result)"
  then obtain x y where "(v, x, y) \<in> set (entries result)" by force
  then obtain i j where ij: "i < length result" "j < length (result ! i)" "v = result ! i ! j"
    unfolding in_entries by blast
  have "result ! i \<in> set result" using ij(1) by simp
  moreover have "v \<in> set (result ! i)" using ij(2,3) by simp
  ultimately show "v \<in> set (concat result)" by auto
next
  fix v assume "v \<in> set (concat result)"
  then obtain row where row: "row \<in> set result" "v \<in> set row" by auto
  from row(1) obtain i where i: "i < length result" "row = result ! i"
    unfolding in_set_conv_nth by blast
  from row(2) obtain j where j: "j < length row" "v = row ! j"
    unfolding in_set_conv_nth by blast
  have "(v, int j, int i) \<in> set (entries result)"
    unfolding in_entries using i j by blast
  then show "v \<in> fst ` set (entries result)" by force
qed

lemma minMaxLoc_max:
  assumes "concat result \<noteq> []"
  shows "\<exists>x y. y < length result \<and> x < length (result ! y) \<and>
           result ! y ! x = Max (set (concat result)) \<and>
           minMaxLoc result = Some (Max (set (concat result)), int x, int y)"
proof -
  from assms have "set (concat result) \<noteq> {}" by simp
  then have "entries result \<noteq> []" using fst_entries [of result] by auto
  then obtain e es where es: "entries result = e # es" by (cases "entries result") auto
  define b where "b = fold better es e"
  have mm: "minMaxLoc result = Some b" by (simp add: minMaxLoc_def es b_def)
  have "fst b = Max (fst ` set (entries result))"
    unfolding b_def es by (rule fold_better_Max)
  then have fb: "fst b = Max (set (concat result))" by (simp add: fst_entries)
  have "b \<in> set (entries result)" unfolding b_def es by (rule fold_better_mem)
  then have "(fst b, fst (snd b), snd (snd b)) \<in> set (entries result)" by simp
  then obtain i j where ij: "i < length result" "j < length (result ! i)"
      "fst b = result ! i ! j" "fst (snd b) = int j" "snd (snd b) = int i"
    unfolding in_entries by blast
  have "b = (Max (set (concat result)), int j, int i)"
    using fb ij(4,5) by (simp add: prod_eq_iff)
  with mm ij fb show ?thesis by auto
qed

text \<open>
  Claim C4. For a frame, template and threshold on which the library returns a score
  matrix with at least one alignment: \<open>detect_watermark\<close> returns absent exactly when
  the maximum score of the matrix is strictly below the threshold; otherwise it returns
  a detection at a position \<open>(x, y)\<close> whose score is that maximum, with that maximum as
  confidence and with size (template width, template height).
\<close>

theorem detect_watermark_max:
  assumes "matchTemplate lib gray_frame template = Some result"
    and "concat result \<noteq> []"
  shows "(detect_watermark lib gray_frame template threshold = Inr None
            \<longleftrightarrow> Max (set (concat result)) < threshold) \<and>
         (\<not> Max (set (concat result)) < threshold \<longrightarrow>
            (\<exists>x y. y < length result \<and> x < length (result ! y) \<and>
               result ! y ! x = Max (set (concat result)) \<and>
               detect_watermark lib gray_frame template threshold =
                 Inr (Some \<lparr>top_left = (int x, int y),
                            size_d = (int (snd (shape template)), int (fst (shape template))),
                            confidence = Max (set (concat result))\<rparr>)))"
proof -
  from minMaxLoc_max [OF assms(2)] obtain x y where
    xy: "y < length result" "x < length (result ! y)"
        "result ! y ! x = Max (set (concat result))"
        "minMaxLoc result = Some (Max (set (concat result)), int x, int y)"
    by blast
  show ?thesis
  proof (cases "Max (set (concat result)) < threshold")
    case True
    then show ?thesis by (simp add: detect_watermark_def assms(1) xy(4))
  next
    case False
    then have "detect_watermark lib gray_frame template threshold =
                 Inr (Some \<lparr>top_left = (int x, int y),
                            size_d = (int (snd (shape template)), int (fst (shape template))),
                            confidence = Max (set (concat result))\<rparr>)"
      by (simp add: detect_watermark_def assms(1) xy(4) split: prod.split)
    with False xy show ?thesis by auto
  qed
qed

theorem detect_watermark_max_witness:
  "matchTemplate demo_cv2 [[255, 0]] [[255, 0]] = Some [[1]] \<and> concat [[1::real]] \<noteq> [] \<and>
   detect_watermark demo_cv2 [[255, 0]] [[255, 0]] (35 / 100) =
     Inr (Some \<lparr>top_left = (0, 0), size_d = (2, 1), confidence = 1\<rparr>) \<and>
   detect_watermark demo_cv2 [[255, 0]] [[255, 0]] 2 = Inr None"
proof -
  have m: "matchTemplate demo_cv2 [[255, 0]] [[255, 0]] = Some [[1]]"
    by (simp add: demo_cv2_def)
  have c: "concat [[1::real]] \<noteq> []" by simp
  from detect_watermark_max [OF m c, of "35 / 100"] detect_watermark_max [OF m c, of 2]
  show ?thesis using m by (simp add: shape_def)
qed

section \<open>Properties of the tracker\<close>

lemma tracker_update_ge: "confidence d \<le> confidence (tracker_update d c)"
  by (simp add: tracker_update_def split: option.split)

lemma tracker_states_length: "length (tracker_states d cs) = length cs"
  by (induction cs arbitrary: d) simp_all

lemma tracker_states_ge:
  "s \<in> set (tracker_states d cs) \<Longrightarrow> confidence d \<le> confidence s"
proof (induction cs arbitrary: d)
  case Nil
  then show ?case by simp
next
  case (Cons c cs)
  from Cons.prems consider "s = tracker_update d c"
    | "s \<in> set (tracker_states (tracker_update d c) cs)"
    by auto
  then show ?case
  proof cases
    case 1
    then show ?thesis by (simp add: tracker_update_ge)
  next
    case 2
    from Cons.IH [OF this] tracker_update_ge [of d c] show ?thesis by linarith
  qed
qed

lemma tracker_states_sorted: "sorted (map confidence (d # tracker_states d cs))"
proof (induction cs arbitrary: d)
  case Nil
  show ?case by simp
next
  case (Cons c cs)
  have "sorted (map confidence (tracker_update d c # tracker_states (tracker_update d c) cs))"
    by (rule Cons.IH)
  moreover have "\<forall>s \<in> set (tracker_states d (c # cs)). confidence d \<le> confidence s"
    using tracker_states_ge by blast
  ultimately show ?case by simp
qed

lemma tracker_states_step:
  "i < length cs \<Longrightarrow>
     (d # tracker_states d cs) ! Suc i = tracker_update ((d # tracker_states d cs) ! i) (cs ! i)"
proof (induction cs arbitrary: d i)
  case Nil
  then show ?case by simp
next
  case (Cons c cs)
  show ?case
  proof (cases i)
    case 0
    then show ?thesis by simp
  next
    case (Suc k)
    with Cons.prems have "k < length cs" by simp
    from Cons.IH [OF this, of "tracker_update d c"] Suc show ?thesis by simp
  qed
qed

lemma frame_loop_held:
  "frame_loop lib t thr (Some d) frames out = Exhausted det out' \<Longrightarrow>
     \<exists>d'. det = Some d' \<and> confidence d \<le> confidence d'"
proof (induction frames arbitrary: d out)
  case Nil
  then show ?case by auto
next
  case (Cons f fs)
  show ?case
  proof (cases "detect_watermark lib (cvtColor lib f) t thr")
    case (Inl e)
    with Cons.prems show ?thesis by simp
  next
    case (Inr found)
    with Cons.prems obtain out2 where
      "frame_loop lib t thr (Some (tracker_update d found)) fs out2 = Exhausted det out'"
      by simp
    from Cons.IH [OF this] tracker_update_ge [of d found] show ?thesis
      by force
  qed
qed

lemma frame_loop_held_no_abort:
  "frame_loop lib t thr (Some d) frames out \<noteq> RaisedUndetected w"
proof (induction frames arbitrary: d out)
  case Nil
  show ?case by simp
next
  case (Cons f fs)
  show ?case
    by (cases "detect_watermark lib (cvtColor lib f) t thr") (simp_all add: Cons.IH)
qed

text \<open>In the frame loop, a frame on which the detector returns normally is one update
  of the held detection, and the mask of that frame is built from the updated one.\<close>

lemma frame_loop_held_step:
  assumes "detect_watermark lib (cvtColor lib f) t thr = Inr found"
  shows "frame_loop lib t thr (Some d) (f # rest) written =
     frame_loop lib t thr
       (Some (case found of
                None \<Rightarrow> d
              | Some u \<Rightarrow> if confidence u \<ge> confidence d then u else d))
       rest
       (written @
        [inpaint lib f
           (build_inpaint_mask (shape (cvtColor lib f))
              (case found of
                 None \<Rightarrow> d
               | Some u \<Rightarrow> if confidence u \<ge> confidence d then u else d))])"
  using assms by (simp add: tracker_update_def)

text \<open>Over a whole run: the detections the loop holds are the states of the tracker on
  the candidates the detector returns for the frames, one after the other.\<close>

lemma frame_loop_follows_tracker:
  assumes "map (\<lambda>f. detect_watermark lib (cvtColor lib f) t thr) frames = map Inr cands"
  shows "frame_loop lib t thr (Some d) frames written =
     Exhausted (Some (last (d # tracker_states d cands)))
       (written @
        map (\<lambda>(f, s). inpaint lib f (build_inpaint_mask (shape (cvtColor lib f)) s))
            (zip frames (tracker_states d cands)))"
  using assms
proof (induction frames arbitrary: d cands written)
  case Nil
  then show ?case by simp
next
  case (Cons f fs)
  from Cons.prems obtain c cs where cands: "cands = c # cs"
    and c: "detect_watermark lib (cvtColor lib f) t thr = Inr c"
    and cs: "map (\<lambda>f. detect_watermark lib (cvtColor lib f) t thr) fs = map Inr cs"
    by (cases cands) auto
  from Cons.IH [OF cs, of "tracker_update d c"] c show ?case
    by (simp add: cands)
qed

text \<open>
  Claim C2. Starting from an established detection \<open>d\<close> and feeding any sequence of
  per-frame candidates: there is a held detection after every update (it is never
  absent again), the confidences of the held detections are non-decreasing along the
  sequence, and each update replaces the held detection by a present candidate whose
  confidence is at least the held one and otherwise leaves it unchanged. The frame loop
  is that tracker: with \<open>d\<close> held, a frame whose candidate is \<open>found\<close> continues the
  loop holding \<open>found\<close> if it is present with confidence at least that of \<open>d\<close>, and
  \<open>d\<close> otherwise, and builds the mask of the frame from the detection so chosen; over a
  run on frames whose candidates are \<open>cands\<close> the loop ends holding the last state of the
  tracker and has written each frame with the mask of the state after its update; and
  any run that starts with \<open>d\<close> held and reaches the end of the source still holds a
  detection, of confidence at least that of \<open>d\<close>.
\<close>

theorem tracker_improved_or_held:
  "length (tracker_states d cands) = length cands \<and>
   sorted (map confidence (d # tracker_states d cands)) \<and>
   (\<forall>i < length cands.
      (d # tracker_states d cands) ! Suc i =
        (case cands ! i of
           None \<Rightarrow> (d # tracker_states d cands) ! i
         | Some u \<Rightarrow>
             if confidence u \<ge> confidence ((d # tracker_states d cands) ! i) then u
             else (d # tracker_states d cands) ! i)) \<and>
   (\<forall>lib template threshold f rest written found.
      detect_watermark lib (cvtColor lib f) template threshold = Inr found \<longrightarrow>
      frame_loop lib template threshold (Some d) (f # rest) written =
        frame_loop lib template threshold
          (Some (case found of
                   None \<Rightarrow> d
                 | Some u \<Rightarrow> if confidence u \<ge> confidence d then u else d))
          rest
          (written @
           [inpaint lib f
              (build_inpaint_mask (shape (cvtColor lib f))
                 (case found of
                    None \<Rightarrow> d
                  | Some u \<Rightarrow> if confidence u \<ge> confidence d then u else d))])) \<and>
   (\<forall>lib template threshold frames written.
      map (\<lambda>f. detect_watermark lib (cvtColor lib f) template threshold) frames
        = map Inr cands \<longrightarrow>
      frame_loop lib template threshold (Some d) frames written =
        Exhausted (Some (last (d # tracker_states d cands)))
          (written @
           map (\<lambda>(f, s). inpaint lib f (build_inpaint_mask (shape (cvtColor lib f)) s))
               (zip frames (tracker_states d cands)))) \<and>
   (\<forall>lib template threshold frames written detection written'.
      frame_loop lib template threshold (Some d) frames written = Exhausted detection written'
        \<longrightarrow> (\<exists>d'. detection = Some d' \<and> confidence d \<le> confidence d'))"
proof (intro conjI allI impI)
  show "length (tracker_states d cands) = length cands"
    by (rule tracker_states_length)
  show "sorted (map confidence (d # tracker_states d cands))"
    by (rule tracker_states_sorted)
next
  fix i assume "i < length cands"
  from tracker_states_step [OF this, of d]
  show "(d # tracker_states d cands) ! Suc i =
        (case cands ! i of
           None \<Rightarrow> (d # tracker_states d cands) ! i
         | Some u \<Rightarrow>
             if confidence u \<ge> confidence ((d # tracker_states d cands) ! i) then u
             else (d # tracker_states d cands) ! i)"
    by (simp only: tracker_update_def)
next
  fix lib :: "'a cv2" and template threshold f rest written found
  assume "detect_watermark lib (cvtColor lib f) template threshold = Inr found"
  then show "frame_loop lib template threshold (Some d) (f # rest) written =
        frame_loop lib template threshold
          (Some (case found of
                   None \<Rightarrow> d
                 | Some u \<Rightarrow> if confidence u \<ge> confidence d then u else d))
          rest
          (written @
           [inpaint lib f
              (build_inpaint_mask (shape (cvtColor lib f))
                 (case found of
                    None \<Rightarrow> d
                  | Some u \<Rightarrow> if confidence u \<ge> confidence d then u else d))])"
    by (rule frame_loop_held_step)
next
  fix lib :: "'b cv2" and template threshold frames written
  assume "map (\<lambda>f. detect_watermark lib (cvtColor lib f) template threshold) frames
            = map Inr cands"
  then show "frame_loop lib template threshold (Some d) frames written =
        Exhausted (Some (last (d # tracker_states d cands)))
          (written @
           map (\<lambda>(f, s). inpaint lib f (build_inpaint_mask (shape (cvtColor lib f)) s))
               (zip frames (tracker_states d cands)))"
    by (rule frame_loop_follows_tracker)
next
  fix lib :: "'c cv2" and template threshold frames written detection written'
  assume "frame_loop lib template threshold (Some d) frames written
            = Exhausted detection written'"
  then show "\<exists>d'. detection = Some d' \<and> confidence d \<le> confidence d'"
    by (rule frame_loop_held)
qed

theorem tracker_improved_or_held_witness:
  "tracker_states \<lparr>top_left = (3, 0), size_d = (2, 1), confidence = 1 / 2\<rparr>
     [None, Some \<lparr>top_left = (0, 0), size_d = (2, 1), confidence = 1\<rparr>]
   = [\<lparr>top_left = (3, 0), size_d = (2, 1), confidence = 1 / 2\<rparr>,
      \<lparr>top_left = (0, 0), size_d = (2, 1), confidence = 1\<rparr>] \<and>
   sorted [1 / 2, 1 / 2, 1 :: real] \<and>
   map (\<lambda>f. detect_watermark demo_cv2 (cvtColor demo_cv2 f) [[255, 0]] (35 / 100))
       [[[0, 255]], [[255, 0]]]
     = map Inr [None, Some \<lparr>top_left = (0, 0), size_d = (2, 1), confidence = 1\<rparr>] \<and>
   frame_loop demo_cv2 [[255, 0]] (35 / 100)
     (Some \<lparr>top_left = (3, 0), size_d = (2, 1), confidence = 1 / 2\<rparr>)
     [[[0, 255]], [[255, 0]]] []
   = Exhausted (Some \<lparr>top_left = (0, 0), size_d = (2, 1), confidence = 1\<rparr>)
       [[[0, 255]], [[255, 0]]]"
proof -
  have cands:
    "map (\<lambda>f. detect_watermark demo_cv2 (cvtColor demo_cv2 f) [[255, 0]] (35 / 100))
         [[[0, 255]], [[255, 0]]]
       = map Inr [None, Some \<lparr>top_left = (0, 0), size_d = (2, 1), confidence = 1\<rparr>]"
    by (simp add: demo_cv2_def detect_watermark_def minMaxLoc_def entries_def shape_def)
  from tracker_improved_or_held
    [of "\<lparr>top_left = (3, 0), size_d = (2, 1), confidence = 1 / 2\<rparr>"
        "[None, Some \<lparr>top_left = (0, 0), size_d = (2, 1), confidence = 1\<rparr>]"]
  have run: "frame_loop demo_cv2 [[255, 0]] (35 / 100)
     (Some \<lparr>top_left = (3, 0), size_d = (2, 1), confidence = 1 / 2\<rparr>)
     [[[0, 255]], [[255, 0]]] []
   = Exhausted
       (Some (last (\<lparr>top_left = (3, 0), size_d = (2, 1), confidence = 1 / 2\<rparr> #
                tracker_states \<lparr>top_left = (3, 0), size_d = (2, 1), confidence = 1 / 2\<rparr>
                  [None, Some \<lparr>top_left = (0, 0), size_d = (2, 1), confidence = 1\<rparr>])))
       ([] @
        map (\<lambda>(f, s). inpaint demo_cv2 f (build_inpaint_mask (shape (cvtColor demo_cv2 f)) s))
            (zip [[[0, 255]], [[255, 0]]]
               (tracker_states \<lparr>top_left = (3, 0), size_d = (2, 1), confidence = 1 / 2\<rparr>
                  [None, Some \<lparr>top_left = (0, 0), size_d = (2, 1), confidence = 1\<rparr>])))"
    using cands by blast
  have st: "tracker_states \<lparr>top_left = (3, 0), size_d = (2, 1), confidence = 1 / 2\<rparr>
     [None, Some \<lparr>top_left = (0, 0), size_d = (2, 1), confidence = 1\<rparr>]
   = [\<lparr>top_left = (3, 0), size_d = (2, 1), confidence = 1 / 2\<rparr>,
      \<lparr>top_left = (0, 0), size_d = (2, 1), confidence = 1\<rparr>]"
    by (simp add: tracker_update_def)
  have inp: "inpaint demo_cv2 = (\<lambda>f m. f)" by (simp add: demo_cv2_def)
  from run cands st show ?thesis by (simp add: inp tracker_update_def)
qed

text \<open>
  Claim C7, as stated, fails: the confidence is the raw maximum score, and the threshold
  is the only lower bound on it. On a frame that falls where the template rises the
  score is -1, and with threshold -1 the detector returns that detection.
\<close>

theorem detect_watermark_confidence_counterexample:
  "detect_watermark demo_cv2 [[0, 255]] [[255, 0]] (- 1) =
     Inr (Some \<lparr>top_left = (0, 0), size_d = (2, 1), confidence = - 1\<rparr>) \<and>
   \<not> (0 \<le> confidence \<lparr>top_left = (0, 0), size_d = (2, 1), confidence = - 1\<rparr> \<and>
      confidence \<lparr>top_left = (0, 0), size_d = (2, 1), confidence = - 1\<rparr> \<le> 1)"
  by (simp add: demo_cv2_def detect_watermark_def minMaxLoc_def entries_def shape_def)

text \<open>
  Claim C7, amended. Every detection that \<open>detect_watermark\<close> returns has as confidence
  the raw maximum score of the matrix, and that is at least the threshold; so the
  confidence lies in [0,1] whenever the threshold is at least 0 and the scores of the
  matrix are at most 1.
\<close>

theorem detect_watermark_confidence:
  assumes "matchTemplate lib gray_frame template = Some result"
    and "detect_watermark lib gray_frame template threshold = Inr (Some d)"
  shows "confidence d = Max (set (concat result)) \<and>
         threshold \<le> confidence d \<and> confidence d \<in> set (concat result) \<and>
         (0 \<le> threshold \<and> (\<forall>v \<in> set (concat result). v \<le> 1)
            \<longrightarrow> 0 \<le> confidence d \<and> confidence d \<le> 1)"
proof -
  have ne: "concat result \<noteq> []"
  proof
    assume "concat result = []"
    then have "set (concat result) = {}" by simp
    then have "fst ` set (entries result) = {}" by (simp only: fst_entries)
    then have "entries result = []" by simp
    then have "minMaxLoc result = None" by (simp add: minMaxLoc_def)
    with assms show False by (simp add: detect_watermark_def)
  qed
  let ?M = "Max (set (concat result))"
  from minMaxLoc_max [OF ne] obtain x y where
    mm: "minMaxLoc result = Some (?M, int x, int y)" by blast
  from assms(2) have nlt: "\<not> ?M < threshold" and cd: "confidence d = ?M"
    by (auto simp: detect_watermark_def assms(1) mm split: if_splits prod.splits)
  have mem: "?M \<in> set (concat result)"
    using ne by (intro Max_in) simp_all
  show ?thesis
    using nlt cd mem by auto
qed

theorem detect_watermark_confidence_witness:
  "matchTemplate (demo_cv2\<lparr>matchTemplate := \<lambda>g t. Some [[4 / 10, 9 / 10]]\<rparr>) [[0, 128, 255]] [[0, 255]] = Some [[4 / 10, 9 / 10]] \<and>
   detect_watermark (demo_cv2\<lparr>matchTemplate := \<lambda>g t. Some [[4 / 10, 9 / 10]]\<rparr>) [[0, 128, 255]] [[0, 255]] (35 / 100) = Inr (Some \<lparr>top_left = (1, 0), size_d = (2, 1), confidence = 9 / 10\<rparr>) \<and>
   (0::real) \<le> 35 / 100 \<and>
   Max (set (concat [[4 / 10, 9 / 10 :: real]])) = 9 / 10 \<and>
   confidence \<lparr>top_left = (1, 0), size_d = (2, 1), confidence = 9 / 10\<rparr> = Max (set (concat [[4 / 10, 9 / 10 :: real]])) \<and>
   35 / 100 \<le> confidence \<lparr>top_left = (1, 0), size_d = (2, 1), confidence = 9 / 10\<rparr> \<and>
   confidence \<lparr>top_left = (1, 0), size_d = (2, 1), confidence = 9 / 10\<rparr> \<le> 1"
proof -
  have m: "matchTemplate (demo_cv2\<lparr>matchTemplate := \<lambda>g t. Some [[4 / 10, 9 / 10]]\<rparr>) [[0, 128, 255]] [[0, 255]] = Some [[4 / 10, 9 / 10]]"
    by simp
  have d: "detect_watermark (demo_cv2\<lparr>matchTemplate := \<lambda>g t. Some [[4 / 10, 9 / 10]]\<rparr>) [[0, 128, 255]] [[0, 255]] (35 / 100) = Inr (Some \<lparr>top_left = (1, 0), size_d = (2, 1), confidence = 9 / 10\<rparr>)"
    by (simp add: detect_watermark_def minMaxLoc_def entries_def shape_def better_def)
  have mx: "Max (set (concat [[4 / 10, 9 / 10 :: real]])) = 9 / 10" by simp
  from detect_watermark_confidence [OF m d] mx show ?thesis using m d by simp
qed

section \<open>Properties of the pipeline driver\<close>

lemma frame_loop_first_frame:
  "frame_loop lib t thr None frames w = RaisedUndetected w' \<longleftrightarrow>
     (w' = w \<and> (\<exists>f rest. frames = f # rest \<and>
                  detect_watermark lib (cvtColor lib f) t thr = Inr None))"
proof (cases frames)
  case Nil
  then show ?thesis by simp
next
  case (Cons f rest)
  show ?thesis
  proof (cases "detect_watermark lib (cvtColor lib f) t thr")
    case (Inl e)
    with Cons show ?thesis by simp
  next
    case (Inr found)
    show ?thesis
    proof (cases found)
      case None
      with Cons Inr show ?thesis by auto
    next
      case (Some d)
      with Cons Inr show ?thesis by (simp add: frame_loop_held_no_abort)
    qed
  qed
qed

lemma msg_undetected_distinct:
  "msg_undetected \<noteq> ''Input video does not exist''"
  "msg_undetected \<noteq> ''Could not open input video''"
  "msg_undetected \<noteq> ''Could not initialise video writer''"
  "msg_undetected \<noteq> ''Failed to generate cleaned video''"
  "msg_undetected \<noteq> ''Unable to read watermark template image''"
  "msg_undetected \<noteq> msg_template_missing"
  by (simp_all add: msg_undetected_def msg_template_missing_def)

lemma load_template_not_undetected:
  "load_template lib d p \<noteq> Inl (WatermarkRemovalError msg_undetected)"
  using msg_undetected_distinct
  by (auto simp: load_template_def split: option.splits node.splits)

lemma mkdir_parents_Inl: "mkdir_parents d p = Inl e \<Longrightarrow> e = OSError"
  by (auto simp: mkdir_parents_def split: if_splits)

text \<open>A call that reaches the frame loop is the rest of the function applied to the
  way the loop ends.\<close>

lemma process_video_opened:
  assumes "opened lib app_root disk0 input_path output_dir template_path template cap disk1"
  shows "process_video lib app_root disk0 input_path output_dir template_path threshold =
     (let fps = (if CAP_PROP_FPS cap = 0 then 30 else CAP_PROP_FPS cap);
          frame_size = (CAP_PROP_FRAME_WIDTH cap, CAP_PROP_FRAME_HEIGHT cap);
          output_path = output_dir @ [stem input_path @ ''_clean.mp4''];
          wr = \<lparr>w_path = output_path, w_fps = fps, w_frame_size = frame_size, w_frames = []\<rparr>;
          disk2 = store disk1 output_path (Some (File []))
      in
      (case frame_loop lib template threshold None (cap_frames cap) [] of
        RaisedCv2 written \<Rightarrow>
          \<lparr>outcome = Inl Cv2Error, disk = disk2, sink = Some (wr\<lparr>w_frames := written\<rparr>)\<rparr>
      | RaisedUndetected written \<Rightarrow>
          \<lparr>outcome = Inl (WatermarkRemovalError msg_undetected),
           disk = unlink
                    (store disk2 output_path
                       (map_option File (VideoWriter_release lib fps frame_size written)))
                    output_path,
           sink = Some (wr\<lparr>w_frames := written\<rparr>)\<rparr>
      | Exhausted detection written \<Rightarrow>
          (let disk3 = store disk2 output_path
                         (map_option File (VideoWriter_release lib fps frame_size written))
           in
           (if disk3 output_path = None \<or>
               (case disk3 output_path of None \<Rightarrow> False | Some n \<Rightarrow> st_size n = 0)
            then \<lparr>outcome = Inl (WatermarkRemovalError ''Failed to generate cleaned video''),
                  disk = disk3, sink = Some (wr\<lparr>w_frames := written\<rparr>)\<rparr>
            else \<lparr>outcome = Inr output_path, disk = disk3,
                  sink = Some (wr\<lparr>w_frames := written\<rparr>)\<rparr>))))"
proof -
  from assms obtain b where b: "disk0 input_path = Some (File b)" "VideoCapture lib b = Some cap"
    unfolding opened_def by blast
  from assms have rest:
    "load_template lib disk0
       (case template_path of None \<Rightarrow> DEFAULT_TEMPLATE app_root | Some p \<Rightarrow> p) = Inr template"
    "mkdir_parents disk0 output_dir = Inr disk1"
    "VideoWriter_isOpened lib (output_dir @ [stem input_path @ ''_clean.mp4''])
       (if CAP_PROP_FPS cap = 0 then 30 else CAP_PROP_FPS cap)
       (CAP_PROP_FRAME_WIDTH cap, CAP_PROP_FRAME_HEIGHT cap)"
    unfolding opened_def by blast+
  show ?thesis
    unfolding process_video_def Let_def
    by (simp only: b rest option.simps node.simps sum.case if_True if_False not_True_eq_False)
qed

text \<open>A call that does not reach the frame loop raises one of the exceptions of the
  first lines, and has a writer only when the writer was constructed and is not open.\<close>

lemma process_video_not_opened:
  assumes "\<nexists>template cap disk1.
             opened lib app_root disk0 input_path output_dir template_path template cap disk1"
  shows "(\<exists>e. outcome (process_video lib app_root disk0 input_path output_dir
                        template_path threshold) = Inl e \<and>
              e \<noteq> WatermarkRemovalError msg_undetected) \<and>
         (sink (process_video lib app_root disk0 input_path output_dir
                  template_path threshold) = None \<or>
          (\<exists>b cap. disk0 input_path = Some (File b) \<and> VideoCapture lib b = Some cap \<and>
             sink (process_video lib app_root disk0 input_path output_dir
                     template_path threshold) =
               Some \<lparr>w_path = output_dir @ [stem input_path @ ''_clean.mp4''],
                     w_fps = (if CAP_PROP_FPS cap = 0 then 30 else CAP_PROP_FPS cap),
                     w_frame_size = (CAP_PROP_FRAME_WIDTH cap, CAP_PROP_FRAME_HEIGHT cap),
                     w_frames = []\<rparr>))"
  using assms msg_undetected_distinct load_template_not_undetected [of lib disk0]
  unfolding process_video_def opened_def Let_def
  by (auto split: sum.splits option.splits node.splits dest: mkdir_parents_Inl)

text \<open>
  Claim C3. \<open>process_video\<close> raises the watermark-not-found error exactly when the call
  reaches the frame loop and the source has a first frame on which the detector returns
  absent. Once a detection is held, the loop never raises it, whatever the later frames
  are; on a later frame where the detector returns absent the held detection is used for
  that frame and kept.
\<close>

theorem not_found_only_on_first_frame:
  "(outcome (process_video lib app_root disk0 input_path output_dir template_path threshold)
      = Inl (WatermarkRemovalError msg_undetected) \<longleftrightarrow>
    (\<exists>template cap disk1 f rest.
       opened lib app_root disk0 input_path output_dir template_path template cap disk1 \<and>
       cap_frames cap = f # rest \<and>
       detect_watermark lib (cvtColor lib f) template threshold = Inr None)) \<and>
   (\<forall>template d frames written w.
      frame_loop lib template threshold (Some d) frames written \<noteq> RaisedUndetected w) \<and>
   (\<forall>template d f rest written.
      detect_watermark lib (cvtColor lib f) template threshold = Inr None \<longrightarrow>
      frame_loop lib template threshold (Some d) (f # rest) written =
      frame_loop lib template threshold (Some d) rest
        (written @ [inpaint lib f (build_inpaint_mask (shape (cvtColor lib f)) d)]))"
proof (intro conjI allI impI)
  let ?j = "process_video lib app_root disk0 input_path output_dir template_path threshold"
  show "outcome ?j = Inl (WatermarkRemovalError msg_undetected) \<longleftrightarrow>
    (\<exists>template cap disk1 f rest.
       opened lib app_root disk0 input_path output_dir template_path template cap disk1 \<and>
       cap_frames cap = f # rest \<and>
       detect_watermark lib (cvtColor lib f) template threshold = Inr None)"
  proof
    assume raised: "outcome ?j = Inl (WatermarkRemovalError msg_undetected)"
    have "\<exists>template cap disk1.
            opened lib app_root disk0 input_path output_dir template_path template cap disk1"
    proof (rule ccontr)
      assume "\<not> ?thesis"
      from process_video_not_opened [OF this, of threshold] raised show False by auto
    qed
    then obtain template cap disk1 where
      op: "opened lib app_root disk0 input_path output_dir template_path template cap disk1"
      by blast
    have "\<exists>w. frame_loop lib template threshold None (cap_frames cap) [] = RaisedUndetected w"
    proof (cases "frame_loop lib template threshold None (cap_frames cap) []")
      case (Exhausted det written)
      with raised show ?thesis
        using msg_undetected_distinct
        by (simp add: process_video_opened [OF op] Let_def split: if_splits)
    next
      case (RaisedUndetected written)
      then show ?thesis by blast
    next
      case (RaisedCv2 written)
      with raised show ?thesis
        by (simp add: process_video_opened [OF op] Let_def)
    qed
    then obtain f rest where "cap_frames cap = f # rest"
      "detect_watermark lib (cvtColor lib f) template threshold = Inr None"
      unfolding frame_loop_first_frame by blast
    with op show "\<exists>template cap disk1 f rest.
       opened lib app_root disk0 input_path output_dir template_path template cap disk1 \<and>
       cap_frames cap = f # rest \<and>
       detect_watermark lib (cvtColor lib f) template threshold = Inr None"
      by blast
  next
    assume "\<exists>template cap disk1 f rest.
       opened lib app_root disk0 input_path output_dir template_path template cap disk1 \<and>
       cap_frames cap = f # rest \<and>
       detect_watermark lib (cvtColor lib f) template threshold = Inr None"
    then obtain template cap disk1 f rest where
      op: "opened lib app_root disk0 input_path output_dir template_path template cap disk1"
      and fr: "cap_frames cap = f # rest"
        "detect_watermark lib (cvtColor lib f) template threshold = Inr None"
      by blast
    from fr have "frame_loop lib template threshold None (cap_frames cap) [] = RaisedUndetected []"
      unfolding frame_loop_first_frame by blast
    then show "outcome ?j = Inl (WatermarkRemovalError msg_undetected)"
      by (simp add: process_video_opened [OF op] Let_def)
  qed
next
  fix template d frames written w
  show "frame_loop lib template threshold (Some d) frames written \<noteq> RaisedUndetected w"
    by (rule frame_loop_held_no_abort)
next
  fix template d f rest written
  assume "detect_watermark lib (cvtColor lib f) template threshold = Inr None"
  then show "frame_loop lib template threshold (Some d) (f # rest) written =
      frame_loop lib template threshold (Some d) rest
        (written @ [inpaint lib f (build_inpaint_mask (shape (cvtColor lib f)) d)])"
    by (simp add: tracker_update_def)
qed

lemmas demo_eval =
  process_video_def demo_cv2_def demo_disk_def load_template_def
  DEFAULT_TEMPLATE_def mkdir_parents_def ancestors_def stem_def name_p_def
  detect_watermark_def minMaxLoc_def entries_def shape_def tracker_update_def
  store_def unlink_def Let_def better_def

theorem not_found_only_on_first_frame_witness:
  "outcome (process_video demo_cv2 [''srv''] (demo_disk([''in'', ''dark.mp4''] \<mapsto> File [30, 0]))
              [''in'', ''dark.mp4''] [''out''] None (35 / 100))
     = Inl (WatermarkRemovalError msg_undetected) \<and>
   (\<exists>template cap disk1 f rest.
       opened demo_cv2 [''srv''] (demo_disk([''in'', ''dark.mp4''] \<mapsto> File [30, 0]))
         [''in'', ''dark.mp4''] [''out''] None template cap disk1 \<and>
       cap_frames cap = f # rest \<and>
       detect_watermark demo_cv2 (cvtColor demo_cv2 f) template (35 / 100) = Inr None) \<and>
   detect_watermark demo_cv2 (cvtColor demo_cv2 [[0, 255]]) [[255, 0]] (35 / 100) = Inr None \<and>
   outcome (process_video demo_cv2 [''srv''] demo_disk [''in'', ''clip.mp4''] [''out''] None
              (35 / 100))
     = Inr [''out'', ''clip_clean.mp4'']"
proof -
  have run: "outcome (process_video demo_cv2 [''srv'']
                        (demo_disk([''in'', ''dark.mp4''] \<mapsto> File [30, 0]))
                        [''in'', ''dark.mp4''] [''out''] None (35 / 100))
               = Inl (WatermarkRemovalError msg_undetected)"
    by (simp add: demo_eval)
  have miss: "detect_watermark demo_cv2 (cvtColor demo_cv2 [[0, 255]]) [[255, 0]] (35 / 100)
                = Inr None"
    by (simp add: demo_eval)
  have ok: "outcome (process_video demo_cv2 [''srv''] demo_disk [''in'', ''clip.mp4''] [''out'']
                       None (35 / 100)) = Inr [''out'', ''clip_clean.mp4'']"
    by (simp add: demo_eval)
  from not_found_only_on_first_frame
         [of demo_cv2 "[''srv'']" "demo_disk([''in'', ''dark.mp4''] \<mapsto> File [30, 0])"
             "[''in'', ''dark.mp4'']" "[''out'']" None "35 / 100"]
       run miss ok
  show ?thesis by blast
qed

text \<open>
  Claim C1, on the input where it fails. The source is a video without frames and the
  released writer leaves an empty file: \<open>process_video\<close> raises the error of its last
  check, and the empty output file is still on disk.
\<close>

theorem failed_job_leaves_output_file:
  "outcome (process_video demo_cv2 [''srv''] (demo_disk([''in'', ''none.mp4''] \<mapsto> File [30]))
              [''in'', ''none.mp4''] [''out''] None (35 / 100))
     = Inl (WatermarkRemovalError ''Failed to generate cleaned video'') \<and>
   disk (process_video demo_cv2 [''srv''] (demo_disk([''in'', ''none.mp4''] \<mapsto> File [30]))
              [''in'', ''none.mp4''] [''out''] None (35 / 100))
        [''out'', ''none_clean.mp4'']
     = Some (File [])"
  by (simp add: demo_eval)

lemma process_video_success:
  assumes "outcome (process_video lib app_root disk0 input_path output_dir template_path
                      threshold) = Inr p"
  shows "\<exists>template cap disk1 det written bytes.
           opened lib app_root disk0 input_path output_dir template_path template cap disk1 \<and>
           frame_loop lib template threshold None (cap_frames cap) [] = Exhausted det written \<and>
           VideoWriter_release lib (if CAP_PROP_FPS cap = 0 then 30 else CAP_PROP_FPS cap)
             (CAP_PROP_FRAME_WIDTH cap, CAP_PROP_FRAME_HEIGHT cap) written = Some bytes \<and>
           bytes \<noteq> [] \<and>
           process_video lib app_root disk0 input_path output_dir template_path threshold =
             \<lparr>outcome = Inr (output_dir @ [stem input_path @ ''_clean.mp4'']),
              disk = store (store disk1 (output_dir @ [stem input_path @ ''_clean.mp4''])
                              (Some (File [])))
                       (output_dir @ [stem input_path @ ''_clean.mp4'']) (Some (File bytes)),
              sink = Some \<lparr>w_path = output_dir @ [stem input_path @ ''_clean.mp4''],
                           w_fps = (if CAP_PROP_FPS cap = 0 then 30 else CAP_PROP_FPS cap),
                           w_frame_size = (CAP_PROP_FRAME_WIDTH cap, CAP_PROP_FRAME_HEIGHT cap),
                           w_frames = written\<rparr>\<rparr>"
proof -
  let ?j = "process_video lib app_root disk0 input_path output_dir template_path threshold"
  have "\<exists>template cap disk1.
          opened lib app_root disk0 input_path output_dir template_path template cap disk1"
  proof (rule ccontr)
    assume "\<not> ?thesis"
    from process_video_not_opened [OF this, of threshold] assms show False by auto
  qed
  then obtain template cap disk1 where
    op: "opened lib app_root disk0 input_path output_dir template_path template cap disk1"
    by blast
  let ?fps = "if CAP_PROP_FPS cap = 0 then 30 else CAP_PROP_FPS cap"
  let ?size = "(CAP_PROP_FRAME_WIDTH cap, CAP_PROP_FRAME_HEIGHT cap)"
  show ?thesis
  proof (cases "frame_loop lib template threshold None (cap_frames cap) []")
    case (Exhausted det written)
    show ?thesis
    proof (cases "VideoWriter_release lib ?fps ?size written")
      case None
      with assms Exhausted show ?thesis
        by (simp add: process_video_opened [OF op] Let_def store_def)
    next
      case (Some bytes)
      with assms Exhausted have ne: "bytes \<noteq> []"
        by (auto simp: process_video_opened [OF op] Let_def store_def split: if_splits)
      with Some Exhausted have "?j =
             \<lparr>outcome = Inr (output_dir @ [stem input_path @ ''_clean.mp4'']),
              disk = store (store disk1 (output_dir @ [stem input_path @ ''_clean.mp4''])
                              (Some (File [])))
                       (output_dir @ [stem input_path @ ''_clean.mp4'']) (Some (File bytes)),
              sink = Some \<lparr>w_path = output_dir @ [stem input_path @ ''_clean.mp4''],
                           w_fps = ?fps, w_frame_size = ?size, w_frames = written\<rparr>\<rparr>"
        by (simp add: process_video_opened [OF op] Let_def store_def)
      with op Exhausted Some ne show ?thesis by blast
    qed
  next
    case (RaisedUndetected written)
    with assms show ?thesis by (simp add: process_video_opened [OF op] Let_def)
  next
    case (RaisedCv2 written)
    with assms show ?thesis by (simp add: process_video_opened [OF op] Let_def)
  qed
qed

lemma mkdir_parents_dirs:
  "mkdir_parents d p = Inr d' \<Longrightarrow> q \<in> set (ancestors p) \<Longrightarrow> d' q = Some Dir"
  by (auto simp: mkdir_parents_def split: if_splits)

lemma ancestors_self: "p \<noteq> [] \<Longrightarrow> p \<in> set (ancestors p)"
proof -
  assume ne: "p \<noteq> []"
  have "p \<in> (\<lambda>n. take n p) ` set [1..<Suc (length p)]"
  proof (rule image_eqI)
    show "p = take (length p) p" by simp
    show "length p \<in> set [1..<Suc (length p)]" using ne by (cases p) auto
  qed
  then show ?thesis by (simp only: ancestors_def set_map)
qed

text \<open>
  Claim C10. A call of \<open>process_video\<close> that succeeds returns \<open>output_dir\<close> joined with
  the stem of the input path followed by \<open>_clean.mp4\<close>; afterwards \<open>output_dir\<close> is a
  directory, and the file at the returned path is what the writer of this call released.
  So a later successful call on the file system the first one left, with the same output
  directory and an input of the same stem (whatever its suffix), returns the same path,
  and the file there is the later call's output.
\<close>

theorem output_path_from_stem:
  "(\<forall>p. outcome (process_video lib app_root disk0 input_path output_dir template_path
                   threshold) = Inr p \<longrightarrow>
      p = output_dir @ [stem input_path @ ''_clean.mp4''] \<and>
      (output_dir \<noteq> [] \<longrightarrow>
         disk (process_video lib app_root disk0 input_path output_dir template_path threshold)
           output_dir = Some Dir) \<and>
      (\<exists>wr bytes.
         sink (process_video lib app_root disk0 input_path output_dir template_path threshold)
           = Some wr \<and>
         VideoWriter_release lib (w_fps wr) (w_frame_size wr) (w_frames wr) = Some bytes \<and>
         disk (process_video lib app_root disk0 input_path output_dir template_path threshold) p
           = Some (File bytes))) \<and>
   (\<forall>p input_path' template_path' threshold' p'.
      outcome (process_video lib app_root disk0 input_path output_dir template_path threshold)
        = Inr p \<and>
      stem input_path' = stem input_path \<and>
      outcome (process_video lib app_root
                 (disk (process_video lib app_root disk0 input_path output_dir template_path
                          threshold))
                 input_path' output_dir template_path' threshold') = Inr p' \<longrightarrow>
      p' = p \<and>
      (\<exists>wr' bytes'.
         sink (process_video lib app_root
                 (disk (process_video lib app_root disk0 input_path output_dir template_path
                          threshold))
                 input_path' output_dir template_path' threshold') = Some wr' \<and>
         VideoWriter_release lib (w_fps wr') (w_frame_size wr') (w_frames wr') = Some bytes' \<and>
         disk (process_video lib app_root
                 (disk (process_video lib app_root disk0 input_path output_dir template_path
                          threshold))
                 input_path' output_dir template_path' threshold') p = Some (File bytes')))"
proof -
  have one: "p = odir @ [stem ipath @ ''_clean.mp4''] \<and>
      (odir \<noteq> [] \<longrightarrow> disk (process_video lib app_root d0 ipath odir tp thr) odir = Some Dir) \<and>
      (\<exists>wr bytes.
         sink (process_video lib app_root d0 ipath odir tp thr) = Some wr \<and>
         VideoWriter_release lib (w_fps wr) (w_frame_size wr) (w_frames wr) = Some bytes \<and>
         disk (process_video lib app_root d0 ipath odir tp thr) p = Some (File bytes))"
    if ok: "outcome (process_video lib app_root d0 ipath odir tp thr) = Inr p"
    for p d0 ipath odir tp thr
  proof -
    from process_video_success [OF ok] obtain template cap disk1 det written bytes where
      op: "opened lib app_root d0 ipath odir tp template cap disk1" and
      rel: "VideoWriter_release lib (if CAP_PROP_FPS cap = 0 then 30 else CAP_PROP_FPS cap)
             (CAP_PROP_FRAME_WIDTH cap, CAP_PROP_FRAME_HEIGHT cap) written = Some bytes" and
      j: "process_video lib app_root d0 ipath odir tp thr =
             \<lparr>outcome = Inr (odir @ [stem ipath @ ''_clean.mp4'']),
              disk = store (store disk1 (odir @ [stem ipath @ ''_clean.mp4''])
                              (Some (File [])))
                       (odir @ [stem ipath @ ''_clean.mp4'']) (Some (File bytes)),
              sink = Some \<lparr>w_path = odir @ [stem ipath @ ''_clean.mp4''],
                           w_fps = (if CAP_PROP_FPS cap = 0 then 30 else CAP_PROP_FPS cap),
                           w_frame_size = (CAP_PROP_FRAME_WIDTH cap, CAP_PROP_FRAME_HEIGHT cap),
                           w_frames = written\<rparr>\<rparr>"
      by blast
    from ok j have p: "p = odir @ [stem ipath @ ''_clean.mp4'']" by simp
    from op have mk: "mkdir_parents d0 odir = Inr disk1" unfolding opened_def by blast
    have dir: "disk (process_video lib app_root d0 ipath odir tp thr) odir = Some Dir"
      if "odir \<noteq> []"
      using mkdir_parents_dirs [OF mk ancestors_self [OF that]]
      by (simp add: j store_def)
    have fl: "disk (process_video lib app_root d0 ipath odir tp thr) p = Some (File bytes)"
      by (simp add: j p store_def)
    from p dir fl rel show ?thesis by (simp add: j)
  qed
  show ?thesis
  proof (intro conjI allI impI)
    fix p
    assume "outcome (process_video lib app_root disk0 input_path output_dir template_path
                       threshold) = Inr p"
    from one [OF this]
    show "p = output_dir @ [stem input_path @ ''_clean.mp4'']"
      and "output_dir \<noteq> [] \<Longrightarrow>
         disk (process_video lib app_root disk0 input_path output_dir template_path threshold)
           output_dir = Some Dir"
      and "\<exists>wr bytes.
         sink (process_video lib app_root disk0 input_path output_dir template_path threshold)
           = Some wr \<and>
         VideoWriter_release lib (w_fps wr) (w_frame_size wr) (w_frames wr) = Some bytes \<and>
         disk (process_video lib app_root disk0 input_path output_dir template_path threshold) p
           = Some (File bytes)"
      by blast+
  next
    fix p input_path' template_path' threshold' p'
    assume a: "outcome (process_video lib app_root disk0 input_path output_dir template_path
                          threshold) = Inr p \<and>
      stem input_path' = stem input_path \<and>
      outcome (process_video lib app_root
                 (disk (process_video lib app_root disk0 input_path output_dir template_path
                          threshold))
                 input_path' output_dir template_path' threshold') = Inr p'"
    from a one have p: "p = output_dir @ [stem input_path @ ''_clean.mp4'']" by blast
    from a have ok': "outcome (process_video lib app_root
                 (disk (process_video lib app_root disk0 input_path output_dir template_path
                          threshold))
                 input_path' output_dir template_path' threshold') = Inr p'" by blast
    from one [OF ok'] a have p': "p' = output_dir @ [stem input_path @ ''_clean.mp4'']"
      by simp
    from p p' show same: "p' = p" by simp
    from one [OF ok']
    show "\<exists>wr' bytes'.
         sink (process_video lib app_root
                 (disk (process_video lib app_root disk0 input_path output_dir template_path
                          threshold))
                 input_path' output_dir template_path' threshold') = Some wr' \<and>
         VideoWriter_release lib (w_fps wr') (w_frame_size wr') (w_frames wr') = Some bytes' \<and>
         disk (process_video lib app_root
                 (disk (process_video lib app_root disk0 input_path output_dir template_path
                          threshold))
                 input_path' output_dir template_path' threshold') p = Some (File bytes')"
      unfolding same by blast
  qed
qed

theorem output_path_from_stem_witness:
  "outcome (process_video demo_cv2 [''srv''] (demo_disk([''in'', ''clip.mov''] \<mapsto> File [25, 255]))
              [''in'', ''clip.mp4''] [''out''] None (35 / 100))
     = Inr [''out'', ''clip_clean.mp4''] \<and>
   disk (process_video demo_cv2 [''srv''] (demo_disk([''in'', ''clip.mov''] \<mapsto> File [25, 255]))
           [''in'', ''clip.mp4''] [''out''] None (35 / 100)) [''out'', ''clip_clean.mp4'']
     = Some (File [255, 0, 0, 255]) \<and>
   disk (process_video demo_cv2 [''srv''] (demo_disk([''in'', ''clip.mov''] \<mapsto> File [25, 255]))
           [''in'', ''clip.mp4''] [''out''] None (35 / 100)) [''out'']
     = Some Dir \<and>
   stem [''in'', ''clip.mov''] = stem [''in'', ''clip.mp4''] \<and>
   outcome (process_video demo_cv2 [''srv'']
              (disk (process_video demo_cv2 [''srv'']
                       (demo_disk([''in'', ''clip.mov''] \<mapsto> File [25, 255]))
                       [''in'', ''clip.mp4''] [''out''] None (35 / 100)))
              [''in'', ''clip.mov''] [''out''] None (35 / 100))
     = Inr [''out'', ''clip_clean.mp4''] \<and>
   disk (process_video demo_cv2 [''srv'']
              (disk (process_video demo_cv2 [''srv'']
                       (demo_disk([''in'', ''clip.mov''] \<mapsto> File [25, 255]))
                       [''in'', ''clip.mp4''] [''out''] None (35 / 100)))
              [''in'', ''clip.mov''] [''out''] None (35 / 100)) [''out'', ''clip_clean.mp4'']
     = Some (File [255, 0])"
proof -
  define D1 where "D1 = disk (process_video demo_cv2 [''srv'']
                       (demo_disk([''in'', ''clip.mov''] \<mapsto> File [25, 255]))
                       [''in'', ''clip.mp4''] [''out''] None (35 / 100))"
  have o1: "outcome (process_video demo_cv2 [''srv'']
                       (demo_disk([''in'', ''clip.mov''] \<mapsto> File [25, 255]))
                       [''in'', ''clip.mp4''] [''out''] None (35 / 100))
              = Inr [''out'', ''clip_clean.mp4'']"
    by (simp add: demo_eval)
  have d1: "D1 [''in'', ''clip.mov''] = Some (File [25, 255])"
    "D1 [''srv'', ''assets'', ''sora2_template.pgm''] = Some (File [255, 0])"
    "D1 [''out''] = Some Dir"
    "D1 [''out'', ''clip_clean.mp4''] = Some (File [255, 0, 0, 255])"
    unfolding D1_def by (simp_all add: demo_eval)
  have st: "stem [''in'', ''clip.mov''] = stem [''in'', ''clip.mp4'']"
    by (simp add: stem_def name_p_def)
  have o2: "outcome (process_video demo_cv2 [''srv''] D1 [''in'', ''clip.mov''] [''out''] None
                       (35 / 100)) = Inr [''out'', ''clip_clean.mp4'']"
    by (simp add: demo_eval d1)
  have d2: "disk (process_video demo_cv2 [''srv''] D1 [''in'', ''clip.mov''] [''out''] None
                    (35 / 100)) [''out'', ''clip_clean.mp4''] = Some (File [255, 0])"
    by (simp add: demo_eval d1)
  from output_path_from_stem
          [of demo_cv2 "[''srv'']" "demo_disk([''in'', ''clip.mov''] \<mapsto> File [25, 255])"
              "[''in'', ''clip.mp4'']" "[''out'']" None "35 / 100"]
       o1 d1(3,4) st o2 d2
  show ?thesis unfolding D1_def by blast
qed

lemma detect_watermark_capture_irrelevant:
  "detect_watermark (lib\<lparr>VideoCapture := g\<rparr>) = detect_watermark lib"
  by (intro ext) (simp add: detect_watermark_def)

lemma frame_loop_capture_irrelevant:
  "frame_loop (lib\<lparr>VideoCapture := g\<rparr>) t thr det frames w = frame_loop lib t thr det frames w"
  by (induction frames arbitrary: det w)
     (simp_all add: detect_watermark_capture_irrelevant split: sum.split option.split)

lemma load_template_capture_irrelevant:
  "load_template (lib\<lparr>VideoCapture := g\<rparr>) = load_template lib"
  by (intro ext) (simp add: load_template_def split: option.split node.split)

text \<open>
  Claim C9. Whenever \<open>process_video\<close> constructs its writer, the frame rate it gives the
  writer is 30 if the source reports 0 and the reported rate otherwise. A source that
  reports 0 is not a fault: the call proceeds exactly as on the same source reporting 30
  (the second part: replacing every reported 0 by 30 in what the capture reports changes
  nothing in the result, the file system or the writer).
\<close>

theorem fps_fallback:
  "(\<forall>wr. sink (process_video lib app_root disk0 input_path output_dir template_path threshold)
            = Some wr \<longrightarrow>
      (\<exists>b cap. disk0 input_path = Some (File b) \<and> VideoCapture lib b = Some cap \<and>
         w_fps wr = (if CAP_PROP_FPS cap = 0 then 30 else CAP_PROP_FPS cap))) \<and>
   process_video
     (lib\<lparr>VideoCapture := \<lambda>b. map_option
             (\<lambda>c. c\<lparr>CAP_PROP_FPS := (if CAP_PROP_FPS c = 0 then 30 else CAP_PROP_FPS c)\<rparr>)
             (VideoCapture lib b)\<rparr>)
     app_root disk0 input_path output_dir template_path threshold
   = process_video lib app_root disk0 input_path output_dir template_path threshold"
proof (intro conjI allI impI)
  fix wr
  let ?j = "process_video lib app_root disk0 input_path output_dir template_path threshold"
  assume s: "sink ?j = Some wr"
  show "\<exists>b cap. disk0 input_path = Some (File b) \<and> VideoCapture lib b = Some cap \<and>
         w_fps wr = (if CAP_PROP_FPS cap = 0 then 30 else CAP_PROP_FPS cap)"
  proof (cases "\<exists>template cap disk1.
          opened lib app_root disk0 input_path output_dir template_path template cap disk1")
    case False
    from process_video_not_opened [OF False, of threshold] s show ?thesis by auto
  next
    case True
    then obtain template cap disk1 where
      op: "opened lib app_root disk0 input_path output_dir template_path template cap disk1"
      by blast
    then obtain b where b: "disk0 input_path = Some (File b)" "VideoCapture lib b = Some cap"
      unfolding opened_def by blast
    have "w_fps wr = (if CAP_PROP_FPS cap = 0 then 30 else CAP_PROP_FPS cap)"
      using s
      by (cases "frame_loop lib template threshold None (cap_frames cap) []")
         (auto simp: process_video_opened [OF op] Let_def split: if_splits)
    with b show ?thesis by blast
  qed
next
  show "process_video
     (lib\<lparr>VideoCapture := \<lambda>b. map_option
             (\<lambda>c. c\<lparr>CAP_PROP_FPS := (if CAP_PROP_FPS c = 0 then 30 else CAP_PROP_FPS c)\<rparr>)
             (VideoCapture lib b)\<rparr>)
     app_root disk0 input_path output_dir template_path threshold
   = process_video lib app_root disk0 input_path output_dir template_path threshold"
    (is "process_video ?lib' _ _ _ _ _ _ = _")
  proof (cases "disk0 input_path")
    case None
    then show ?thesis by (simp add: process_video_def)
  next
    case (Some n)
    note irr = frame_loop_capture_irrelevant load_template_capture_irrelevant
    show ?thesis
    proof (cases "load_template lib disk0
                    (case template_path of None \<Rightarrow> DEFAULT_TEMPLATE app_root | Some p \<Rightarrow> p)")
      case (Inl e)
      with Some show ?thesis by (simp add: process_video_def irr)
    next
      case (Inr template)
      show ?thesis
      proof (cases n)
        case Dir
        with Some Inr show ?thesis by (simp add: process_video_def irr)
      next
        case (File b)
        show ?thesis
        proof (cases "VideoCapture lib b")
          case None
          with Some Inr File show ?thesis by (simp add: process_video_def irr)
        next
          case cap: (Some cap)
          show ?thesis
          proof (cases "mkdir_parents disk0 output_dir")
            case (Inl e)
            with Some Inr File cap show ?thesis by (simp add: process_video_def irr Let_def)
          next
            case mk: (Inr disk1)
            let ?fps = "if CAP_PROP_FPS cap = 0 then 30 else CAP_PROP_FPS cap"
            let ?size = "(CAP_PROP_FRAME_WIDTH cap, CAP_PROP_FRAME_HEIGHT cap)"
            let ?out = "output_dir @ [stem input_path @ ''_clean.mp4'']"
            show ?thesis
            proof (cases "VideoWriter_isOpened lib ?out ?fps ?size")
              case False
              with Some Inr File cap mk show ?thesis
                by (simp add: process_video_def irr Let_def)
            next
              case True
              have op: "opened lib app_root disk0 input_path output_dir template_path
                          template cap disk1"
                unfolding opened_def using Some Inr File cap mk True by simp
              have op': "opened ?lib' app_root disk0 input_path output_dir template_path
                           template (cap\<lparr>CAP_PROP_FPS := ?fps\<rparr>) disk1"
                unfolding opened_def using Some Inr File cap mk True by (simp add: irr)
              show ?thesis
                unfolding process_video_opened [OF op] process_video_opened [OF op']
                by (simp add: irr Let_def split: loop_exit.split)
            qed
          qed
        qed
      qed
    qed
  qed
qed

theorem fps_fallback_witness:
  "sink (process_video demo_cv2 [''srv''] demo_disk [''in'', ''clip.mp4''] [''out''] None
           (35 / 100))
     = Some \<lparr>w_path = [''out'', ''clip_clean.mp4''], w_fps = 30, w_frame_size = (2, 1),
             w_frames = [[[255, 0]], [[0, 255]]]\<rparr> \<and>
   demo_disk [''in'', ''clip.mp4''] = Some (File [0, 255, 0]) \<and>
   CAP_PROP_FPS (the (VideoCapture demo_cv2 [0, 255, 0])) = 0 \<and>
   outcome (process_video demo_cv2 [''srv''] demo_disk [''in'', ''clip.mp4''] [''out''] None
              (35 / 100))
     = Inr [''out'', ''clip_clean.mp4''] \<and>
   w_fps (the (sink (process_video demo_cv2 [''srv'']
                       (demo_disk([''in'', ''clip.mov''] \<mapsto> File [25, 255]))
                       [''in'', ''clip.mov''] [''out''] None (35 / 100)))) = 25"
  using fps_fallback [of demo_cv2 "[''srv'']" demo_disk "[''in'', ''clip.mp4'']" "[''out'']"
                         None "35 / 100"]
  by (simp add: demo_eval)

section \<open>Properties of the upload endpoint\<close>

lemma process_upload_accepted_not_400:
  assumes "fname \<noteq> []" and "str_lower (suffix_p (Path fname)) \<in> set ALLOWED_SUFFIXES"
  shows "fst (process_upload lib str_lower app_root uuid4 disk0 (Some fname) content)
           \<noteq> HTTPException 400 detail"
proof -
  let ?suffix = "str_lower (suffix_p (Path fname))"
  let ?up = "app_root @ [''uploads'', uuid4 @ ?suffix]"
  let ?j = "process_video lib app_root (store disk0 ?up (Some (File content))) ?up
              (app_root @ [''outputs'']) None (35 / 100)"
  show ?thesis
  proof (cases "outcome ?j")
    case (Inl e)
    then show ?thesis
      using assms by (cases e) (simp_all add: process_upload_def Let_def)
  next
    case (Inr p)
    then show ?thesis
      using assms by (simp add: process_upload_def Let_def)
  qed
qed

text \<open>
  Claim C8. Whatever the case mapping \<open>str_lower\<close> is (Python's \<^verbatim>\<open>str.lower()\<close> among
  them), the endpoint answers with status 400 exactly when there is no file name, the
  file name is empty, or the lower-cased suffix of the file name is not one of \<open>.mp4\<close>,
  \<open>.mov\<close>, \<open>.mkv\<close>, \<open>.avi\<close>, \<open>.webm\<close>. In that case nothing has been stored and
  \<open>process_video\<close> has not run: the file system is the one the request found. Whether
  the request is rejected in this way does not depend on the content of the upload (nor
  on the video library or the file system): two uploads with the same file name are both
  rejected or both let through.
\<close>

theorem upload_rejected_by_extension:
  "((\<exists>detail. fst (process_upload lib str_lower app_root uuid4 disk0 filename content)
                 = HTTPException 400 detail) \<longleftrightarrow>
      (case filename of
         None \<Rightarrow> True
       | Some fname \<Rightarrow>
           fname = [] \<or> str_lower (suffix_p (Path fname)) \<notin> set ALLOWED_SUFFIXES)) \<and>
   ((\<exists>detail. fst (process_upload lib str_lower app_root uuid4 disk0 filename content)
                 = HTTPException 400 detail) \<longrightarrow>
      snd (process_upload lib str_lower app_root uuid4 disk0 filename content) = disk0) \<and>
   ((\<exists>detail. fst (process_upload lib str_lower app_root uuid4 disk0 filename content)
                 = HTTPException 400 detail) \<longleftrightarrow>
    (\<exists>detail. fst (process_upload lib' str_lower app_root' uuid4' disk0' filename content')
                 = HTTPException 400 detail))"
proof -
  have iff: "(\<exists>detail. fst (process_upload l str_lower r u d filename c)
                         = HTTPException 400 detail) \<longleftrightarrow>
      (case filename of
         None \<Rightarrow> True
       | Some fname \<Rightarrow>
           fname = [] \<or> str_lower (suffix_p (Path fname)) \<notin> set ALLOWED_SUFFIXES)"
    for l :: "'c cv2" and r u d c
  proof (cases filename)
    case None
    then show ?thesis by (simp add: process_upload_def)
  next
    case (Some fname)
    show ?thesis
    proof (cases "fname = []")
      case True
      with Some show ?thesis by (simp add: process_upload_def)
    next
      case False
      show ?thesis
      proof (cases "str_lower (suffix_p (Path fname)) \<in> set ALLOWED_SUFFIXES")
        case True
        have "fst (process_upload l str_lower r u d (Some fname) c) \<noteq> HTTPException 400 detail"
          for detail
          by (rule process_upload_accepted_not_400) (fact False, fact True)
        with Some False True show ?thesis by simp
      next
        case no: False
        with Some False show ?thesis by (simp add: process_upload_def Let_def)
      qed
    qed
  qed
  have unchanged:
    "snd (process_upload lib str_lower app_root uuid4 disk0 filename content) = disk0"
    if "\<exists>detail. fst (process_upload lib str_lower app_root uuid4 disk0 filename content)
                 = HTTPException 400 detail"
  proof (cases filename)
    case None
    then show ?thesis by (simp add: process_upload_def)
  next
    case (Some fname)
    with that iff [of lib app_root uuid4 disk0 content]
    have "fname = [] \<or> str_lower (suffix_p (Path fname)) \<notin> set ALLOWED_SUFFIXES" by simp
    with Some show ?thesis by (auto simp: process_upload_def Let_def)
  qed
  show ?thesis
    using iff [of lib app_root uuid4 disk0 content] iff [of lib' app_root' uuid4' disk0' content']
      unchanged
    by blast
qed

theorem upload_rejected_by_extension_witness:
  "fst (process_upload demo_cv2 ascii_lower [''srv''] ''u1'' demo_disk (Some ''notes.txt'')
          [0, 255, 0])
     = HTTPException 400 ''Unsupported file type'' \<and>
   ascii_lower (suffix_p (Path ''notes.txt'')) \<notin> set ALLOWED_SUFFIXES \<and>
   snd (process_upload demo_cv2 ascii_lower [''srv''] ''u1'' demo_disk (Some ''notes.txt'')
          [0, 255, 0])
     = demo_disk \<and>
   ascii_lower (suffix_p (Path ''movie.MP4'')) = ''.mp4'' \<and>
   fst (process_upload demo_cv2 ascii_lower [''srv''] ''u1'' demo_disk (Some ''movie.MP4'')
          [0, 255, 0])
     = FileResponse [''srv'', ''outputs'', ''u1_clean.mp4''] ''video/mp4'' ''u1_clean.mp4''"
proof -
  have s1: "ascii_lower (suffix_p (Path ''notes.txt'')) = ''.txt''"
    by code_simp
  have s2: "ascii_lower (suffix_p (Path ''movie.MP4'')) = ''.mp4''"
    by code_simp
  have r1: "fst (process_upload demo_cv2 ascii_lower [''srv''] ''u1'' demo_disk
                   (Some ''notes.txt'') [0, 255, 0])
              = HTTPException 400 ''Unsupported file type''"
    by (simp add: process_upload_def s1 ALLOWED_SUFFIXES_def)
  have r2: "fst (process_upload demo_cv2 ascii_lower [''srv''] ''u1'' demo_disk
                   (Some ''movie.MP4'') [0, 255, 0])
     = FileResponse [''srv'', ''outputs'', ''u1_clean.mp4''] ''video/mp4'' ''u1_clean.mp4''"
    by (simp add: process_upload_def s2 ALLOWED_SUFFIXES_def demo_eval)
  from upload_rejected_by_extension
         [of demo_cv2 ascii_lower "[''srv'']" "''u1''" demo_disk "Some ''notes.txt''"
             "[0, 255, 0]" demo_cv2 "[''srv'']" "''u1''" demo_disk "[0, 255, 0]"]
       r1 r2 s1 s2
  show ?thesis by (simp add: ALLOWED_SUFFIXES_def)
qed

section \<open>Properties of the mask builder\<close>

lemma zeros_nth:
  "length (zeros (H, W)) = H"
  "r < H \<Longrightarrow> length (zeros (H, W) ! r) = W"
  "r < H \<Longrightarrow> c < W \<Longrightarrow> zeros (H, W) ! r ! c = 0"
  by (simp_all add: zeros_def)

lemma assign_block_nth:
  "length (assign_block img y0 y1 x0 x1 v) = length img"
  "r < length img \<Longrightarrow> length (assign_block img y0 y1 x0 x1 v ! r) = length (img ! r)"
  "r < length img \<Longrightarrow> c < length (img ! r) \<Longrightarrow>
     assign_block img y0 y1 x0 x1 v ! r ! c =
       (if slice_bound y0 (length img) \<le> r \<and> r < slice_bound y1 (length img) \<and>
           slice_bound x0 (length (img ! r)) \<le> c \<and> c < slice_bound x1 (length (img ! r))
        then v else img ! r ! c)"
  by (simp_all add: assign_block_def)

lemma dilate_nth:
  "length (dilate img) = length img"
  "r < length img \<Longrightarrow> length (dilate img ! r) = length (img ! r)"
  "r < length img \<Longrightarrow> c < length (img ! r) \<Longrightarrow>
     dilate img ! r ! c = fold max (window5 img r c) 0"
  by (simp_all add: dilate_def)

lemma in_window5:
  "v \<in> set (window5 img r c) \<longleftrightarrow>
     (\<exists>i j. int r - 2 \<le> i \<and> i \<le> int r + 2 \<and> 0 \<le> i \<and> nat i < length img \<and>
            int c - 2 \<le> j \<and> j \<le> int c + 2 \<and> 0 \<le> j \<and> nat j < length (img ! nat i) \<and>
            v = img ! nat i ! nat j)"
  unfolding window5_def by (auto simp: Bex_def; force)

lemma fold_max_binary:
  fixes a :: "8 word"
  assumes "set xs \<subseteq> {0, 255}" and "a \<in> {0, 255}"
  shows "fold max xs a = (if a = 255 \<or> 255 \<in> set xs then 255 else 0)"
  using assms
proof (induction xs arbitrary: a)
  case Nil
  then show ?case by auto
next
  case (Cons x xs)
  from Cons.prems have x: "x = 0 \<or> x = 255" and a: "a = 0 \<or> a = 255" by auto
  then have m: "max x a \<in> {0, 255}" by (auto simp: max_def)
  from Cons.prems have "set xs \<subseteq> {0, 255}" by simp
  from Cons.IH [OF this m] x a show ?case by (auto simp: max_def)
qed


text \<open>The mask before dilation, and what the mask builder returns, pixel by pixel.\<close>

lemma block_nth:
  assumes "r < H" and "c < W"
  shows "assign_block (zeros (H, W)) y0 y1 x0 x1 255 ! r ! c =
           (if slice_bound y0 H \<le> r \<and> r < slice_bound y1 H \<and>
               slice_bound x0 W \<le> c \<and> c < slice_bound x1 W
            then 255 else 0)"
  using assms by (simp add: assign_block_nth zeros_nth)

lemma block_shape:
  "length (assign_block (zeros (H, W)) y0 y1 x0 x1 v) = H"
  "r < H \<Longrightarrow> length (assign_block (zeros (H, W)) y0 y1 x0 x1 v ! r) = W"
  by (simp_all add: assign_block_nth zeros_nth)

lemma window5_block_binary:
  "set (window5 (assign_block (zeros (H, W)) y0 y1 x0 x1 255) r c) \<subseteq> {0, 255}"
proof
  fix v assume "v \<in> set (window5 (assign_block (zeros (H, W)) y0 y1 x0 x1 255) r c)"
  then obtain i j where "nat i < H" "nat j < W"
    "v = assign_block (zeros (H, W)) y0 y1 x0 x1 255 ! nat i ! nat j"
    unfolding in_window5 by (auto simp: block_shape)
  then show "v \<in> {0, 255}" by (simp add: block_nth)
qed

lemma mask_shape:
  "length (build_inpaint_mask (H, W) d) = H"
  "r < H \<Longrightarrow> length (build_inpaint_mask (H, W) d ! r) = W"
  by (simp_all add: build_inpaint_mask_def dilate_nth block_shape split: prod.split)

lemma mask_nth:
  assumes "r < H" and "c < W" and "bbox d = (x, y, w, h)"
  shows "build_inpaint_mask (H, W) d ! r ! c =
           (if 255 \<in> set (window5 (assign_block (zeros (H, W)) y (y + h) x (x + w) 255) r c)
            then 255 else 0)"
  using assms
  by (simp add: build_inpaint_mask_def dilate_nth block_shape
        fold_max_binary [OF window5_block_binary])

lemma mask_binary:
  assumes "row \<in> set (build_inpaint_mask (H, W) d)" and "v \<in> set row"
  shows "v = 0 \<or> v = 255"
proof -
  obtain x y w h where b: "bbox d = (x, y, w, h)" by (cases "bbox d") auto
  from assms(1) obtain r where r: "r < H" "row = build_inpaint_mask (H, W) d ! r"
    unfolding in_set_conv_nth by (auto simp: mask_shape)
  from assms(2) r obtain c where c: "c < W" "v = row ! c"
    unfolding in_set_conv_nth by (auto simp: mask_shape)
  from r c mask_nth [OF r(1) c(1) b] show ?thesis by auto
qed

lemma in_fill_region:
  "(r, c) \<in> fill_region m \<longleftrightarrow> r < length m \<and> c < length (m ! r) \<and> m ! r ! c = 255"
  unfolding fill_region_def by auto

lemma in_bbox_pixels:
  assumes "bbox d = (x, y, w, h)"
  shows "(r, c) \<in> bbox_pixels (H, W) d \<longleftrightarrow>
           r < H \<and> c < W \<and> y \<le> int r \<and> int r < y + h \<and> x \<le> int c \<and> int c < x + w"
  unfolding bbox_pixels_def assms by auto

lemma slice_bound_nonneg: "0 \<le> i \<Longrightarrow> slice_bound i n = min (nat i) n"
  by (simp add: slice_bound_def)

text \<open>A pixel of the box that lies in the frame is set before dilation, when the corner
  of the box is not negative.\<close>

lemma block_in_box:
  assumes "0 \<le> x" and "0 \<le> y"
    and "r < H" and "c < W" and "y \<le> int r" and "int r < y + h" and "x \<le> int c" and "int c < x + w"
  shows "assign_block (zeros (H, W)) y (y + h) x (x + w) 255 ! r ! c = 255"
proof -
  have "0 \<le> y + h" "0 \<le> x + w" using assms by linarith+
  then show ?thesis
    using assms by (simp add: block_nth slice_bound_nonneg) (intro conjI; linarith)
qed

text \<open>A pixel of the frame with a set pixel at most two rows and columns away is filled.\<close>

lemma mask_near_block:
  assumes "bbox d = (x, y, w, h)" and "r < H" and "c < W"
    and "r' < H" and "c' < W"
    and "assign_block (zeros (H, W)) y (y + h) x (x + w) 255 ! r' ! c' = 255"
    and "int r - 2 \<le> int r'" and "int r' \<le> int r + 2"
    and "int c - 2 \<le> int c'" and "int c' \<le> int c + 2"
  shows "(r, c) \<in> fill_region (build_inpaint_mask (H, W) d)"
proof -
  have "255 \<in> set (window5 (assign_block (zeros (H, W)) y (y + h) x (x + w) 255) r c)"
    unfolding in_window5
    using assms(4-10)
    by (intro exI [of _ "int r'"] exI [of _ "int c'"]) (simp add: block_shape)
  with mask_nth [OF assms(2,3,1)] assms(2,3) show ?thesis
    by (simp add: in_fill_region mask_shape)
qed


text \<open>
  Claim C5, as stated, fails. The detector returns a detection whose box is the whole
  frame when the template is as large as the frame; the mask is then filled everywhere,
  and the fill region after dilation is the box itself, not a strict superset.
\<close>

theorem mask_strict_superset_counterexample:
  "detect_watermark demo_cv2 [[255, 0]] [[255, 0]] (35 / 100) =
     Inr (Some \<lparr>top_left = (0, 0), size_d = (2, 1), confidence = 1\<rparr>) \<and>
   shape [[255, 0 :: 8 word]] = (1, 2) \<and>
   \<not> (bbox_pixels (1, 2) \<lparr>top_left = (0, 0), size_d = (2, 1), confidence = 1\<rparr>
        \<subset> fill_region
            (build_inpaint_mask (1, 2) \<lparr>top_left = (0, 0), size_d = (2, 1), confidence = 1\<rparr>))"
proof -
  have "fill_region
          (build_inpaint_mask (1, 2) \<lparr>top_left = (0, 0), size_d = (2, 1), confidence = 1\<rparr>)
        = {(0, 0), (0, 1)}"
    by code_simp
  moreover have "bbox_pixels (1, 2) \<lparr>top_left = (0, 0), size_d = (2, 1), confidence = 1\<rparr>
        = {(0, 0), (0, 1)}"
    by code_simp
  moreover have "detect_watermark demo_cv2 [[255, 0]] [[255, 0]] (35 / 100) =
     Inr (Some \<lparr>top_left = (0, 0), size_d = (2, 1), confidence = 1\<rparr>)"
    by (simp add: demo_cv2_def detect_watermark_def minMaxLoc_def entries_def shape_def)
  ultimately show ?thesis by (simp add: shape_def)
qed

text \<open>A box with a negative corner is a second case: the slice bounds of the assignment
  then count from the far edge, and pixels of the box inside the frame stay unset. The
  detector never returns such a box.\<close>

lemma mask_negative_corner:
  "(0, 0) \<in> bbox_pixels (1, 4) \<lparr>top_left = (- 1, 0), size_d = (2, 1), confidence = 1\<rparr> \<and>
   fill_region (build_inpaint_mask (1, 4) \<lparr>top_left = (- 1, 0), size_d = (2, 1), confidence = 1\<rparr>)
     = {}"
  by code_simp


lemma box_subset_fill:
  assumes "0 \<le> fst (top_left d)" and "0 \<le> snd (top_left d)"
  shows "bbox_pixels (H, W) d \<subseteq> fill_region (build_inpaint_mask (H, W) d)"
proof
  fix p assume p: "p \<in> bbox_pixels (H, W) d"
  obtain x y w h where b: "bbox d = (x, y, w, h)" by (cases "bbox d") auto
  then have xy: "0 \<le> x" "0 \<le> y" using assms by (auto simp: bbox_def split: prod.splits)
  obtain r c where rc: "p = (r, c)" by (cases p)
  from p have "(r, c) \<in> bbox_pixels (H, W) d" by (simp add: rc)
  then have box: "r < H" "c < W" "y \<le> int r" "int r < y + h" "x \<le> int c" "int c < x + w"
    unfolding in_bbox_pixels [OF b] by auto
  have "assign_block (zeros (H, W)) y (y + h) x (x + w) 255 ! r ! c = 255"
    by (rule block_in_box [OF xy box])
  from mask_near_block [OF b box(1,2) box(1,2) this]
  show "p \<in> fill_region (build_inpaint_mask (H, W) d)" by (simp add: rc)
qed

lemma fill_beyond_box:
  assumes "0 \<le> fst (top_left d)" and "0 \<le> snd (top_left d)"
    and "(r0, c0) \<in> bbox_pixels (H, W) d"
    and "r1 < H" and "c1 < W" and "(r1, c1) \<notin> bbox_pixels (H, W) d"
  shows "\<exists>p. p \<in> fill_region (build_inpaint_mask (H, W) d) \<and> p \<notin> bbox_pixels (H, W) d"
proof -
  obtain x y w h where b: "bbox d = (x, y, w, h)" by (cases "bbox d") auto
  then have xy: "0 \<le> x" "0 \<le> y" using assms(1,2) by (auto simp: bbox_def split: prod.splits)
  from assms(3) have in0: "r0 < H" "c0 < W" "y \<le> int r0" "int r0 < y + h"
      "x \<le> int c0" "int c0 < x + w"
    unfolding in_bbox_pixels [OF b] by auto
  note near = mask_near_block [OF b]
  note blk = block_in_box [OF xy]
  from assms(4,5,6) consider
      (above) "int r1 < y" | (below) "y + h \<le> int r1"
    | (left) "int c1 < x" | (right) "x + w \<le> int c1"
    unfolding in_bbox_pixels [OF b] by linarith
  then show ?thesis
  proof cases
    case above
    let ?r = "nat y - 1"
    have y1: "1 \<le> y" using above by linarith
    have pr: "?r < H" "int ?r = y - 1" using y1 in0 by linarith+
    have nb: "nat y < H" "y \<le> int (nat y)" "int (nat y) < y + h" using y1 in0 by linarith+
    have set: "assign_block (zeros (H, W)) y (y + h) x (x + w) 255 ! nat y ! c0 = 255"
      by (rule blk [OF nb(1) in0(2) nb(2,3) in0(5,6)])
    have "(?r, c0) \<in> fill_region (build_inpaint_mask (H, W) d)"
      by (rule near [OF pr(1) in0(2) nb(1) in0(2) set]) (use pr y1 in linarith)+
    moreover have "(?r, c0) \<notin> bbox_pixels (H, W) d"
      unfolding in_bbox_pixels [OF b] using pr by linarith
    ultimately show ?thesis by blast
  next
    case below
    let ?r = "nat (y + h)"
    have yh: "0 \<le> y + h" using in0 by linarith
    have pr: "?r < H" "int ?r = y + h" using below assms(4) yh by linarith+
    have h1: "1 \<le> h" using in0 by linarith
    let ?n = "nat (y + h) - 1"
    have nb: "?n < H" "y \<le> int ?n" "int ?n < y + h" using pr h1 xy by linarith+
    have set: "assign_block (zeros (H, W)) y (y + h) x (x + w) 255 ! ?n ! c0 = 255"
      by (rule blk [OF nb(1) in0(2) nb(2,3) in0(5,6)])
    have "(?r, c0) \<in> fill_region (build_inpaint_mask (H, W) d)"
      by (rule near [OF pr(1) in0(2) nb(1) in0(2) set]) (use pr h1 xy in linarith)+
    moreover have "(?r, c0) \<notin> bbox_pixels (H, W) d"
      unfolding in_bbox_pixels [OF b] using pr by linarith
    ultimately show ?thesis by blast
  next
    case left
    let ?c = "nat x - 1"
    have x1: "1 \<le> x" using left by linarith
    have pc: "?c < W" "int ?c = x - 1" using x1 in0 by linarith+
    have nb: "nat x < W" "x \<le> int (nat x)" "int (nat x) < x + w" using x1 in0 by linarith+
    have set: "assign_block (zeros (H, W)) y (y + h) x (x + w) 255 ! r0 ! nat x = 255"
      by (rule blk [OF in0(1) nb(1) in0(3,4) nb(2,3)])
    have "(r0, ?c) \<in> fill_region (build_inpaint_mask (H, W) d)"
      by (rule near [OF in0(1) pc(1) in0(1) nb(1) set]) (use pc x1 in linarith)+
    moreover have "(r0, ?c) \<notin> bbox_pixels (H, W) d"
      unfolding in_bbox_pixels [OF b] using pc by linarith
    ultimately show ?thesis by blast
  next
    case right
    let ?c = "nat (x + w)"
    have xw: "0 \<le> x + w" using in0 by linarith
    have pc: "?c < W" "int ?c = x + w" using right assms(5) xw by linarith+
    have w1: "1 \<le> w" using in0 by linarith
    let ?n = "nat (x + w) - 1"
    have nb: "?n < W" "x \<le> int ?n" "int ?n < x + w" using pc w1 xy by linarith+
    have set: "assign_block (zeros (H, W)) y (y + h) x (x + w) 255 ! r0 ! ?n = 255"
      by (rule blk [OF in0(1) nb(1) in0(3,4) nb(2,3)])
    have "(r0, ?c) \<in> fill_region (build_inpaint_mask (H, W) d)"
      by (rule near [OF in0(1) pc(1) in0(1) nb(1) set]) (use pc w1 xy in linarith)+
    moreover have "(r0, ?c) \<notin> bbox_pixels (H, W) d"
      unfolding in_bbox_pixels [OF b] using pc by linarith
    ultimately show ?thesis by blast
  qed
qed

text \<open>
  Claim C5, amended. For every frame shape and every detection, the mask has the shape
  of the frame and only the values 0 and 255. When the corner of the detection's box is
  not negative (as for every detection the detector returns), every pixel of the box
  that lies in the frame is fill, so the fill region contains the box; and the fill
  region after dilation is a strict superset of the box whenever the box has a pixel in
  the frame and does not cover the whole frame.
\<close>

theorem mask_covers_box:
  "length (build_inpaint_mask (H, W) d) = H \<and>
   (\<forall>row \<in> set (build_inpaint_mask (H, W) d).
      length row = W \<and> (\<forall>v \<in> set row. v = 0 \<or> v = 255)) \<and>
   (0 \<le> fst (top_left d) \<and> 0 \<le> snd (top_left d) \<longrightarrow>
      bbox_pixels (H, W) d \<subseteq> fill_region (build_inpaint_mask (H, W) d) \<and>
      (bbox_pixels (H, W) d \<noteq> {} \<and> bbox_pixels (H, W) d \<noteq> {0..<H} \<times> {0..<W} \<longrightarrow>
         bbox_pixels (H, W) d \<subset> fill_region (build_inpaint_mask (H, W) d)))"
proof (intro conjI ballI impI)
  show "length (build_inpaint_mask (H, W) d) = H" by (rule mask_shape)
next
  fix row assume row: "row \<in> set (build_inpaint_mask (H, W) d)"
  then show "length row = W"
    unfolding in_set_conv_nth by (auto simp: mask_shape)
  fix v assume "v \<in> set row"
  with row show "v = 0 \<or> v = 255" by (rule mask_binary)
next
  assume nn: "0 \<le> fst (top_left d) \<and> 0 \<le> snd (top_left d)"
  then show sub: "bbox_pixels (H, W) d \<subseteq> fill_region (build_inpaint_mask (H, W) d)"
    by (intro box_subset_fill) simp_all
  assume part: "bbox_pixels (H, W) d \<noteq> {} \<and> bbox_pixels (H, W) d \<noteq> {0..<H} \<times> {0..<W}"
  obtain x y w h where b: "bbox d = (x, y, w, h)" by (cases "bbox d") auto
  have inframe: "bbox_pixels (H, W) d \<subseteq> {0..<H} \<times> {0..<W}"
    using in_bbox_pixels [OF b] by auto
  from part obtain r0 c0 where in0: "(r0, c0) \<in> bbox_pixels (H, W) d" by auto
  from part inframe have "\<exists>q. q \<in> {0..<H} \<times> {0..<W} \<and> q \<notin> bbox_pixels (H, W) d"
    by blast
  then obtain r1 c1 where
    out1: "r1 < H" "c1 < W" "(r1, c1) \<notin> bbox_pixels (H, W) d" by auto
  from fill_beyond_box [OF _ _ in0 out1] nn
  obtain p where "p \<in> fill_region (build_inpaint_mask (H, W) d)" "p \<notin> bbox_pixels (H, W) d"
    by blast
  with sub show "bbox_pixels (H, W) d \<subset> fill_region (build_inpaint_mask (H, W) d)"
    by blast
qed

theorem mask_covers_box_witness:
  "length (build_inpaint_mask (1, 4) \<lparr>top_left = (1, 0), size_d = (2, 1), confidence = 1\<rparr>) = 1 \<and>
   (0::int) \<le> fst (top_left \<lparr>top_left = (1, 0), size_d = (2, 1), confidence = 1\<rparr>) \<and>
   (0::int) \<le> snd (top_left \<lparr>top_left = (1, 0), size_d = (2, 1), confidence = 1\<rparr>) \<and>
   bbox_pixels (1, 4) \<lparr>top_left = (1, 0), size_d = (2, 1), confidence = 1\<rparr> = {(0, 1), (0, 2)} \<and>
   bbox_pixels (1, 4) \<lparr>top_left = (1, 0), size_d = (2, 1), confidence = 1\<rparr> \<noteq> {} \<and>
   bbox_pixels (1, 4) \<lparr>top_left = (1, 0), size_d = (2, 1), confidence = 1\<rparr> \<noteq> {0..<1::nat} \<times> {0..<4::nat} \<and>
   bbox_pixels (1, 4) \<lparr>top_left = (1, 0), size_d = (2, 1), confidence = 1\<rparr> \<subset> fill_region (build_inpaint_mask (1, 4) \<lparr>top_left = (1, 0), size_d = (2, 1), confidence = 1\<rparr>) \<and>
   (0, 0) \<in> fill_region (build_inpaint_mask (1, 4) \<lparr>top_left = (1, 0), size_d = (2, 1), confidence = 1\<rparr>)"
proof -
  have nn: "(0::int) \<le> fst (top_left \<lparr>top_left = (1, 0), size_d = (2, 1), confidence = 1\<rparr>)"
    "(0::int) \<le> snd (top_left \<lparr>top_left = (1, 0), size_d = (2, 1), confidence = 1\<rparr>)"
    by simp_all
  have bp: "bbox_pixels (1, 4) \<lparr>top_left = (1, 0), size_d = (2, 1), confidence = 1\<rparr> = {(0, 1), (0, 2)}"
    by code_simp
  have bne: "bbox_pixels (1, 4) \<lparr>top_left = (1, 0), size_d = (2, 1), confidence = 1\<rparr> \<noteq> {}"
    unfolding bp by simp
  have "(0, 0) \<in> {0..<1::nat} \<times> {0..<4::nat}" by simp
  moreover have "(0::nat, 0::nat) \<notin> {(0, 1), (0, 2)}" by simp
  ultimately have nfull:
    "bbox_pixels (1, 4) \<lparr>top_left = (1, 0), size_d = (2, 1), confidence = 1\<rparr> \<noteq> {0..<1::nat} \<times> {0..<4::nat}"
    unfolding bp by metis
  have f0: "(0, 0) \<in> fill_region (build_inpaint_mask (1, 4) \<lparr>top_left = (1, 0), size_d = (2, 1), confidence = 1\<rparr>)"
    by code_simp
  from mask_covers_box [of 1 4 "\<lparr>top_left = (1, 0), size_d = (2, 1), confidence = 1\<rparr>"] nn bne nfull
  have "length (build_inpaint_mask (1, 4) \<lparr>top_left = (1, 0), size_d = (2, 1), confidence = 1\<rparr>) = 1"
    and "bbox_pixels (1, 4) \<lparr>top_left = (1, 0), size_d = (2, 1), confidence = 1\<rparr> \<subset> fill_region (build_inpaint_mask (1, 4) \<lparr>top_left = (1, 0), size_d = (2, 1), confidence = 1\<rparr>)"
    by blast+
  with nn bp bne nfull f0 show ?thesis by blast
qed

end
